theory Spec2Isabelle
  imports Main "HOL-Library.Word" "HOL-Library.Signed_Division"
begin

chapter \<open>ubrowse: the model\<close>

text \<open>
  A shallow embedding of \<open>ubrowse.c\<close> (version 1.3). A C \<open>int\<close> is modelled as an
  \<open>int\<close>: for the codepoints (21 bits), the indices of the table and the sizes of a
  terminal that the program works with, none of its arithmetic leaves the 32-bit range.
  A read outside an array is undefined behaviour in C and is a value of its own in the
  model. The routines that only draw on the terminal (\<open>drawentry\<close>, \<open>drawblocklist\<close>,
  the help screens, and \<open>drawtable\<close> after its first statement) are not part of the
  model, and \<open>malloc\<close> is taken to succeed; of the terminal, the model keeps the reported size, the key events
  and the number of beeps.
\<close>

section \<open>The Unicode data (data.h)\<close>

text \<open>
  The character table and the block table are generated files that are compiled into the
  program. Every function below therefore takes the tables as arguments. The bit-fields of
  \<open>struct charinfo\<close> are words of the declared width; the \<open>unsigned int\<close> bounds of a
  block are 32-bit words.
\<close>

record charinfo =
  nameoffset :: "24 word"
  namesize :: "8 word"
  uchar :: "21 word"
  combining :: "1 word"

record blockinfo =
  from_b :: "32 word"
  to_b :: "32 word"
  name_b :: string

text \<open>
  A bit-field narrower than \<open>int\<close> is promoted to \<open>int\<close> when it is read in an
  expression; \<open>uval c\<close> is the promoted value of \<open>c.uchar\<close>.
\<close>

definition uval :: "charinfo \<Rightarrow> int" where
  "uval c = uint (uchar c)"

text \<open>
  \<open>charlist[n]\<close> for a C \<open>int\<close> index. A read outside the array is undefined behaviour in
  C; the model makes it \<open>None\<close>, and every function that reads the table returns an option.
\<close>

definition charlist_at :: "charinfo list \<Rightarrow> int \<Rightarrow> charinfo option" where
  "charlist_at charlist n =
     (if 0 \<le> n \<and> n < int (length charlist) then Some (charlist ! nat n) else None)"

definition charlistsize :: "charinfo list \<Rightarrow> int" where
  "charlistsize charlist = int (length charlist)"

section \<open>Codepoint lookup\<close>

text \<open>
  The highest possible Unicode codepoint.
\<close>

definition lastucharval :: int where
  "lastucharval = 0x10FFFF"

text \<open>
  The binary search of \<open>lookupchar\<close>. C's \<open>/\<close> on \<open>int\<close> truncates towards zero, which
  is \<open>sdiv\<close>.
\<close>

function lookupchar_loop :: "charinfo list \<Rightarrow> int \<Rightarrow> int \<Rightarrow> int \<Rightarrow> int option" where
  "lookupchar_loop charlist uc top' bottom' =
     (if bottom' - top' > 1 then
        (let n = (top' + bottom') sdiv 2 in
         case charlist_at charlist n of
           None \<Rightarrow> None
         | Some c \<Rightarrow>
             if uval c < uc then lookupchar_loop charlist uc n bottom'
             else if uval c > uc then lookupchar_loop charlist uc top' n
             else Some n)
      else
        (case charlist_at charlist top' of
           None \<Rightarrow> None
         | Some t \<Rightarrow>
             (case charlist_at charlist bottom' of
                None \<Rightarrow> None
              | Some b \<Rightarrow> Some (if uc - uval t < uval b - uc then top' else bottom'))))"
  by pat_completeness auto
termination
proof (relation "measure (\<lambda>(charlist, uc, top', bottom'). nat (bottom' - top'))", goal_cases)
  case 1
  show ?case by simp
next
  case (2 charlist uc top' bottom' n c)
  then show ?case
    by (simp add: signed_divide_int_def sgn_if) linarith
next
  case (3 charlist uc top' bottom' n c)
  then show ?case
    by (simp add: signed_divide_int_def sgn_if) linarith
qed

declare lookupchar_loop.simps [simp del]

definition lookupchar :: "charinfo list \<Rightarrow> int \<Rightarrow> int option" where
  "lookupchar charlist uc = lookupchar_loop charlist uc 0 (charlistsize charlist - 1)"

text \<open>
  \<open>offsetchar\<close>: the index of the nearest codepoint that is \<open>charoffset\<close> away from the
  codepoint at \<open>pos\<close>.
\<close>

definition offsetchar :: "charinfo list \<Rightarrow> int \<Rightarrow> int \<Rightarrow> int option" where
  "offsetchar charlist pos charoffset =
     (case charlist_at charlist pos of
        None \<Rightarrow> None
      | Some c \<Rightarrow> lookupchar charlist (uval c + charoffset))"

section \<open>Searching the codepoint names\<close>

text \<open>
  The name of an entry is the \<open>namesize\<close> bytes at \<open>charnamebuffer + nameoffset\<close>; a
  name that does not lie inside the buffer is an out-of-bounds read.
\<close>

definition charname :: "string \<Rightarrow> charinfo \<Rightarrow> string option" where
  "charname charnamebuffer c =
     (if unat (nameoffset c) + unat (namesize c) \<le> length charnamebuffer
      then Some (take (unat (namesize c)) (drop (unat (nameoffset c)) charnamebuffer))
      else None)"

text \<open>
  A C string is represented by the characters before its terminating NUL.
  \<open>first_char s\<close> is \<open>*s\<close> (the terminator when the string is empty), \<open>memchr\<close> tells
  whether a byte occurs in a block of bytes, \<open>cstring\<close> is the string that a
  NUL-terminated copy of a block of bytes holds, and \<open>strstr\<close> tells whether the second
  string occurs in the first.
\<close>

definition NUL :: char where
  "NUL = CHR 0x00"

definition first_char :: "string \<Rightarrow> char" where
  "first_char s = (case s of [] \<Rightarrow> NUL | c # cs \<Rightarrow> c)"

definition memchr :: "string \<Rightarrow> char \<Rightarrow> bool" where
  "memchr p c = (c \<in> set p)"

definition cstring :: "string \<Rightarrow> string" where
  "cstring p = takeWhile (\<lambda>c. c \<noteq> NUL) p"

fun starts_with :: "string \<Rightarrow> string \<Rightarrow> bool" where
  "starts_with hs [] = True"
| "starts_with [] (n # ns) = False"
| "starts_with (h # hs) (n # ns) = (h = n \<and> starts_with hs ns)"

fun strstr :: "string \<Rightarrow> string \<Rightarrow> bool" where
  "strstr [] needle = (needle = [])"
| "strstr (h # hs) needle = (starts_with (h # hs) needle \<or> strstr hs needle)"

text \<open>
  The test that \<open>findcharbyname\<close> applies to the name at one position.
\<close>

definition name_matches :: "string \<Rightarrow> string \<Rightarrow> bool" where
  "name_matches name substring =
     (memchr name (first_char substring) \<and> strstr (cstring name) substring)"

text \<open>
  The search loop. It has no bound of its own, so the model counts its iterations: with
  no fuel left the result is \<open>None\<close>, as it is after an out-of-bounds read. The result
  \<open>Some (-1)\<close> is the C function's negative return value.
\<close>

fun findcharbyname_loop ::
  "nat \<Rightarrow> string \<Rightarrow> charinfo list \<Rightarrow> string \<Rightarrow> int \<Rightarrow> int \<Rightarrow> int \<Rightarrow> int option" where
  "findcharbyname_loop 0 charnamebuffer charlist substring startpos direction pos = None"
| "findcharbyname_loop (Suc fuel) charnamebuffer charlist substring startpos direction pos =
     (let pos1 = pos + direction;
          pos2 = (if pos1 \<ge> charlistsize charlist then 0
                  else if pos1 < 0 then charlistsize charlist - 1
                  else pos1)
      in case charlist_at charlist pos2 of
           None \<Rightarrow> None
         | Some c \<Rightarrow>
             (case charname charnamebuffer c of
                None \<Rightarrow> None
              | Some name \<Rightarrow>
                  if name_matches name substring then Some pos2
                  else if pos2 = startpos then Some (-1)
                  else findcharbyname_loop fuel charnamebuffer charlist substring
                         startpos direction pos2))"

declare findcharbyname_loop.simps [simp del]

text \<open>
  \<open>findcharbyname\<close>, with the static buffer \<open>lastsubstring\<close> passed in and returned.
  The argument \<open>None\<close> is the C call with a null pointer. \<open>sizeof buf - 1\<close> is 255.
\<close>

definition findcharbyname ::
  "nat \<Rightarrow> string \<Rightarrow> charinfo list \<Rightarrow> string \<Rightarrow> string option \<Rightarrow> int \<Rightarrow> int
     \<Rightarrow> (int \<times> string) option" where
  "findcharbyname fuel charnamebuffer charlist lastsubstring substring startpos direction =
     (case substring of
        Some s \<Rightarrow>
          if length s \<ge> 255 then Some (-1, lastsubstring)
          else
            (case findcharbyname_loop fuel charnamebuffer charlist s startpos direction startpos of
               None \<Rightarrow> None
             | Some pos \<Rightarrow> Some (pos, if pos \<ge> 0 then s else lastsubstring))
      | None \<Rightarrow>
          if lastsubstring \<noteq> [] then
            (case findcharbyname_loop fuel charnamebuffer charlist lastsubstring startpos
                    direction startpos of
               None \<Rightarrow> None
             | Some pos \<Rightarrow> Some (pos, lastsubstring))
          else Some (-1, lastsubstring))"

section \<open>Empty blocks\<close>

text \<open>
  The body of the loop of \<open>emptyblocksinit\<close> for one block. The block's \<open>from\<close> is
  converted from \<open>unsigned int\<close> to \<open>int\<close> for the call of \<open>lookupchar\<close> (\<open>sint\<close>);
  in the comparisons the promoted bit-field is converted to \<open>unsigned int\<close>, which does
  not change its value.
\<close>

definition in_block :: "blockinfo \<Rightarrow> charinfo \<Rightarrow> bool" where
  "in_block b c = (uval c \<ge> uint (from_b b) \<and> uval c \<le> uint (to_b b))"

definition emptyblock :: "charinfo list \<Rightarrow> blockinfo \<Rightarrow> bool option" where
  "emptyblock charlist b =
     (case lookupchar charlist (sint (from_b b)) of
        None \<Rightarrow> None
      | Some n \<Rightarrow>
          (case charlist_at charlist n of
             None \<Rightarrow> None
           | Some c \<Rightarrow>
               if in_block b c then Some False
               else if n + 1 < charlistsize charlist then
                 (case charlist_at charlist (n + 1) of
                    None \<Rightarrow> None
                  | Some c' \<Rightarrow> if in_block b c' then Some False else Some True)
               else Some True))"

fun emptyblocks_fill :: "charinfo list \<Rightarrow> blockinfo list \<Rightarrow> bool list option" where
  "emptyblocks_fill charlist [] = Some []"
| "emptyblocks_fill charlist (b # bs) =
     (case emptyblock charlist b of
        None \<Rightarrow> None
      | Some e \<Rightarrow>
          (case emptyblocks_fill charlist bs of
             None \<Rightarrow> None
           | Some es \<Rightarrow> Some (e # es)))"

text \<open>
  \<open>emptyblocksinit\<close>: the argument is the global \<open>emptyblocks\<close> before the call
  (\<open>None\<close> for the null pointer), the result is the array it points to after the call
  (\<open>None\<close> when the computation reads out of bounds).
\<close>

definition emptyblocksinit ::
  "charinfo list \<Rightarrow> blockinfo list \<Rightarrow> bool list option \<Rightarrow> bool list option" where
  "emptyblocksinit charlist blocklist emptyblocks =
     (case emptyblocks of
        Some eb \<Rightarrow> Some eb
      | None \<Rightarrow> emptyblocks_fill charlist blocklist)"

section \<open>Reading codepoints from text\<close>

text \<open>
  \<open>strtoul\<close> of the C library for base 16, after its description in the C standard:
  leading white space, an optional sign, an optional \<open>0x\<close>, then hex digits. The result
  is the value, the text left at the end pointer and whether \<open>errno\<close> was set to
  \<open>ERANGE\<close>. Without a digit nothing is converted and the end pointer is the start of the
  text. \<open>unsigned long\<close> has 64 bits.
\<close>

definition ULONG_MAX :: int where
  "ULONG_MAX = 2 ^ 64 - 1"

definition isspace :: "char \<Rightarrow> bool" where
  "isspace c = (c = CHR '' '' \<or> (9 \<le> (of_char c :: int) \<and> (of_char c :: int) \<le> 13))"

definition hexdigit :: "char \<Rightarrow> int option" where
  "hexdigit c =
     (let k = (of_char c :: int) in
      if 48 \<le> k \<and> k \<le> 57 then Some (k - 48)
      else if 65 \<le> k \<and> k \<le> 70 then Some (k - 55)
      else if 97 \<le> k \<and> k \<le> 102 then Some (k - 87)
      else None)"

definition is_hex :: "char \<Rightarrow> bool" where
  "is_hex c = (hexdigit c \<noteq> None)"

fun hexval :: "int \<Rightarrow> string \<Rightarrow> int" where
  "hexval acc [] = acc"
| "hexval acc (c # cs) = hexval (16 * acc + (case hexdigit c of None \<Rightarrow> 0 | Some d \<Rightarrow> d)) cs"

definition strtoul16 :: "string \<Rightarrow> int \<times> string \<times> bool" where
  "strtoul16 nptr =
     (let s1 = dropWhile isspace nptr;
          neg = (case s1 of [] \<Rightarrow> False | c # cs \<Rightarrow> c = CHR ''-'');
          s2 = (case s1 of [] \<Rightarrow> s1
                | c # cs \<Rightarrow> if c = CHR ''-'' \<or> c = CHR ''+'' then cs else s1);
          s3 = (case s2 of
                  z # x # h # cs \<Rightarrow>
                    if z = CHR ''0'' \<and> (x = CHR ''x'' \<or> x = CHR ''X'') \<and> is_hex h
                    then h # cs else s2
                | _ \<Rightarrow> s2);
          digits = takeWhile is_hex s3;
          endptr = dropWhile is_hex s3;
          v = hexval 0 digits
      in if digits = [] then (0, nptr, False)
         else if v > ULONG_MAX then (ULONG_MAX, endptr, True)
         else if neg then ((2 ^ 64 - v) mod 2 ^ 64, endptr, False)
         else (v, endptr, False))"

text \<open>
  \<open>readuchar\<close>. \<open>*p\<close> is nonzero when text is left at the end pointer, and \<open>p == input\<close>
  when nothing was converted (the end pointer is a suffix of the input, so the pointers
  are equal exactly when the texts are). \<open>errno\<close> is only read when the value is
  \<open>ULONG_MAX\<close>, which the next test rejects in any case.
\<close>

definition readuchar :: "charinfo list \<Rightarrow> string \<Rightarrow> int option" where
  "readuchar charlist input0 =
     (let input = (case input0 of
                     c0 # c1 # cs \<Rightarrow> if c0 = CHR ''U'' \<and> c1 = CHR ''+'' then cs else input0
                   | _ \<Rightarrow> input0);
          (val, p, erange) = strtoul16 input
      in if p \<noteq> [] \<or> p = input \<or> (val = ULONG_MAX \<and> erange) then Some (-1)
         else if val > lastucharval then Some (-1)
         else lookupchar charlist val)"

text \<open>
  \<open>readsinglecharstring\<close> reads the string with \<open>sscanf\<close> under the current locale. The
  locale's decoder is a parameter: \<open>mbdecode s\<close> is the first wide character of \<open>s\<close> and
  the bytes after it, or \<open>None\<close> when \<open>s\<close> is empty or does not start with a valid
  multibyte sequence. The first \<open>sscanf\<close> returns 1 when a character is decoded; the
  second one returns \<open>EOF\<close> when nothing follows that character.
\<close>

definition readsinglecharstring ::
  "charinfo list \<Rightarrow> (string \<Rightarrow> (int \<times> string) option) \<Rightarrow> string \<Rightarrow> int option" where
  "readsinglecharstring charlist mbdecode str =
     (case mbdecode str of
        None \<Rightarrow> Some (-1)
      | Some (ch, rest) \<Rightarrow> if rest = [] then lookupchar charlist ch else Some (-1))"

section \<open>The terminal\<close>

text \<open>
  How a call of the program ends: with a value, by leaving the process, blocked in
  \<open>getch\<close> because no further key event is known, or undefined (an out-of-bounds access).
\<close>

datatype exit = Exit_help | Exit_version | Exit_interrupt | Die string

fun exit_status :: "exit \<Rightarrow> int" where
  "exit_status (Die msg) = 1"
| "exit_status e = 0"

datatype 'a outcome = Return 'a | Exit exit | Waiting | Undefined

text \<open>
  An event is what one call of \<open>getch\<close> delivers: a key code, or the change of the
  terminal to the given number of rows and columns, which \<open>getch\<close> reports as
  \<open>KEY_RESIZE\<close>. The key codes are those of \<open>ncurses.h\<close>.
\<close>

datatype event = Key int | Resize int int

definition ERR :: int where "ERR = - 1"
definition KEY_DOWN :: int where "KEY_DOWN = 258"
definition KEY_UP :: int where "KEY_UP = 259"
definition KEY_LEFT :: int where "KEY_LEFT = 260"
definition KEY_RIGHT :: int where "KEY_RIGHT = 261"
definition KEY_BACKSPACE :: int where "KEY_BACKSPACE = 263"
definition KEY_NPAGE :: int where "KEY_NPAGE = 338"
definition KEY_PPAGE :: int where "KEY_PPAGE = 339"
definition KEY_ENTER :: int where "KEY_ENTER = 343"
definition KEY_RESIZE :: int where "KEY_RESIZE = 410"

text \<open>
  The terminal as the program sees it: the size that \<open>getmaxyx\<close> reports, the kill
  character of the terminal, the globals \<open>xtermsize\<close>, \<open>ytermsize\<close> and \<open>lastrow\<close>, and
  the number of calls of \<open>beep\<close> so far.
\<close>

record ui =
  term_rows :: int
  term_cols :: int
  killchar :: int
  xtermsize :: int
  ytermsize :: int
  lastrow :: int
  beeps :: nat

definition measurescreen :: "ui \<Rightarrow> ui" where
  "measurescreen u = u\<lparr>ytermsize := term_rows u, xtermsize := term_cols u,
                        lastrow := term_rows u - 1\<rparr>"

definition beep :: "ui \<Rightarrow> ui" where
  "beep u = u\<lparr>beeps := Suc (beeps u)\<rparr>"

fun getch :: "event \<Rightarrow> ui \<Rightarrow> int \<times> ui" where
  "getch (Key k) u = (k, u)"
| "getch (Resize r c) u = (KEY_RESIZE, u\<lparr>term_rows := r, term_cols := c\<rparr>)"

definition tolower :: "int \<Rightarrow> int" where
  "tolower c = (if 65 \<le> c \<and> c \<le> 90 then c + 32 else c)"

text \<open>
  \<open>translatekey\<close>. The results are character codes: \<open>'\f'\<close> is 12, \<open>'>'\<close> 62, \<open>'<'\<close> 60,
  \<open>'+'\<close> 43, \<open>'-'\<close> 45, \<open>'F'\<close> 70, \<open>'B'\<close> 66, \<open>'\n'\<close> 10 and \<open>'?'\<close> 63.
\<close>

definition translatekey :: "int \<Rightarrow> ui \<Rightarrow> int \<times> ui" where
  "translatekey key u =
     (if key = KEY_RESIZE then (12, measurescreen u)
      else if key = KEY_RIGHT then (62, u)
      else if key = KEY_LEFT then (60, u)
      else if key = KEY_DOWN then (43, u)
      else if key = KEY_UP then (45, u)
      else if key = 32 then (70, u)
      else if key = KEY_NPAGE then (70, u)
      else if key = KEY_PPAGE then (66, u)
      else if key = KEY_BACKSPACE then (66, u)
      else if key = 8 then (66, u)
      else if key = 127 then (66, u)
      else if key = KEY_ENTER then (10, u)
      else if key = 13 then (10, u)
      else if key = 104 then (63, u)
      else if key = 72 then (63, u)
      else (tolower key, u))"

section \<open>Text input\<close>

definition isxdigit :: "int \<Rightarrow> bool" where
  "isxdigit c = ((48 \<le> c \<and> c \<le> 57) \<or> (65 \<le> c \<and> c \<le> 70) \<or> (97 \<le> c \<and> c \<le> 102))"

text \<open>
  The input loop of \<open>doinputui\<close>. \<open>input\<close> holds the cells \<open>0 .. inputlen - 1\<close> of the
  buffer. The result is the return value, the string left in the buffer, the terminal
  and the events not yet read.
\<close>

definition doinputui_finish ::
  "event list \<Rightarrow> ui \<Rightarrow> string \<Rightarrow> int \<Rightarrow> (int \<times> string \<times> ui \<times> event list) outcome" where
  "doinputui_finish es u input inputlen =
     (if inputlen < 0 then Undefined
      else Return (inputlen, take (nat inputlen) input, u, es))"

fun doinputui_loop ::
  "(int \<Rightarrow> bool) \<Rightarrow> int \<Rightarrow> int \<Rightarrow> event list \<Rightarrow> ui \<Rightarrow> string \<Rightarrow> int \<Rightarrow> int
     \<Rightarrow> (int \<times> string \<times> ui \<times> event list) outcome" where
  "doinputui_loop validchar inputsize promptlen [] u input inputlen inputmax = Waiting"
| "doinputui_loop validchar inputsize promptlen (e # es) u input inputlen inputmax =
     (let ch = fst (getch e u); u1 = snd (getch e u) in
      if ch = ERR then Return (- 1, input, u1, es)
      else if validchar ch then
        (if inputlen < inputmax then
           (if inputlen < 0 then Undefined
            else doinputui_loop validchar inputsize promptlen es u1
                   (take (nat inputlen) input @ [char_of ch]) (inputlen + 1) inputmax)
         else doinputui_loop validchar inputsize promptlen es (beep u1) input inputlen inputmax)
      else
        (let ch1 = (if ch = killchar u1 then 21 else ch) in
         if ch1 = KEY_ENTER \<or> ch1 = 13 \<or> ch1 = 10 then
           doinputui_finish es u1 input inputlen
         else if ch1 = KEY_BACKSPACE \<or> ch1 = 8 \<or> ch1 = 127 then
           (if inputlen \<noteq> 0 then
              doinputui_loop validchar inputsize promptlen es u1
                (take (nat (inputlen - 1)) input) (inputlen - 1) inputmax
            else doinputui_loop validchar inputsize promptlen es (beep u1) input inputlen inputmax)
         else if ch1 = 21 then
           doinputui_loop validchar inputsize promptlen es u1 [] 0 inputmax
         else if ch1 = 7 then Return (- 1, input, u1, es)
         else if ch1 = KEY_RESIZE then
           (let u2 = measurescreen u1;
                inputmax1 = xtermsize u2 - promptlen;
                inputmax2 = (if inputmax1 > inputsize - 1 then inputsize - 1 else inputmax1);
                inputlen1 = (if inputlen \<ge> inputmax2 then inputmax2 else inputlen)
            in doinputui_loop validchar inputsize promptlen es u2
                 (take (nat inputlen1) input) inputlen1 inputmax2)
         else doinputui_loop validchar inputsize promptlen es u1 input inputlen inputmax))"

definition doinputui ::
  "int \<Rightarrow> string \<Rightarrow> (int \<Rightarrow> bool) \<Rightarrow> event list \<Rightarrow> ui
     \<Rightarrow> (int \<times> string \<times> ui \<times> event list) outcome" where
  "doinputui inputsize prompt validchar es u =
     (let promptlen = int (length prompt);
          inputmax = xtermsize u - promptlen;
          inputmax1 = (if inputmax > inputsize - 1 then inputsize - 1 else inputmax)
      in doinputui_loop validchar inputsize promptlen es u [] 0 inputmax1)"

text \<open>
  \<open>jumpui\<close>: the buffer has 7 bytes and the prompt is \<open>U+\<close>. The result is the new index,
  the terminal and the events not yet read.
\<close>

definition jumpui ::
  "charinfo list \<Rightarrow> int \<Rightarrow> event list \<Rightarrow> ui \<Rightarrow> (int \<times> ui \<times> event list) outcome" where
  "jumpui charlist index es u =
     (case doinputui 7 ''U+'' isxdigit es u of
        Return (n, buf, u1, es1) \<Rightarrow>
          if n < 0 then Return (index, u1, es1)
          else
            (let val = fst (strtoul16 buf) in
             if val > lastucharval then Return (index, beep u1, es1)
             else
               (case lookupchar charlist val of
                  None \<Rightarrow> Undefined
                | Some r \<Rightarrow> Return (r, u1, es1)))
      | Exit e \<Rightarrow> Exit e
      | Waiting \<Rightarrow> Waiting
      | Undefined \<Rightarrow> Undefined)"

section \<open>Selecting a block\<close>

definition blocklistsize :: "blockinfo list \<Rightarrow> int" where
  "blocklistsize blocklist = int (length blocklist)"

definition blocklist_at :: "blockinfo list \<Rightarrow> int \<Rightarrow> blockinfo option" where
  "blocklist_at blocklist n =
     (if 0 \<le> n \<and> n < int (length blocklist) then Some (blocklist ! nat n) else None)"

definition emptyblocks_at :: "bool list \<Rightarrow> int \<Rightarrow> bool option" where
  "emptyblocks_at emptyblocks n =
     (if 0 \<le> n \<and> n < int (length emptyblocks) then Some (emptyblocks ! nat n) else None)"

text \<open>
  The \<open>for\<close> loop at the start of \<open>blockselectui\<close>: the index of the first block whose
  \<open>to\<close> is not below the current codepoint, or \<open>blocklistsize\<close>. The codepoint at
  \<open>index\<close> is read once for every block that is tested.
\<close>

fun blockselect_scan :: "blockinfo list \<Rightarrow> int \<Rightarrow> int \<Rightarrow> int" where
  "blockselect_scan [] uc i = i"
| "blockselect_scan (b # bs) uc i =
     (if uint (to_b b) \<ge> uc then i else blockselect_scan bs uc (i + 1))"

definition blockselect_start :: "charinfo list \<Rightarrow> blockinfo list \<Rightarrow> int \<Rightarrow> int option" where
  "blockselect_start charlist blocklist index =
     (if blocklist = [] then Some 0
      else
        (case charlist_at charlist index of
           None \<Rightarrow> None
         | Some c \<Rightarrow> Some (blockselect_scan blocklist (uval c) 0)))"

text \<open>
  The \<open>while\<close> loop of \<open>blockselectui\<close>. It ends with the user's choice: \<open>Cancelled\<close>
  for the two \<open>return index\<close> statements, \<open>Chosen selected\<close> when \<open>done\<close> is set.
  \<open>unicodeversion\<close> is the version string (empty also for a null pointer); both
  \<open>showblockhelptext\<close> and \<open>showversion\<close> wait for one more key with a plain \<open>getch\<close>.
  The character codes of the cases: \<open>'{'\<close> is 123, \<open>'}'\<close> 125, \<open>'v'\<close> 118, \<open>'q'\<close> 113.
\<close>

datatype choice = Cancelled | Chosen int

fun blockselectui_loop ::
  "string \<Rightarrow> blockinfo list \<Rightarrow> bool list \<Rightarrow> event list \<Rightarrow> ui \<Rightarrow> int
     \<Rightarrow> (choice \<times> ui \<times> event list) outcome" where
  "blockselectui_loop unicodeversion blocklist emptyblocks [] u selected = Waiting"
| "blockselectui_loop unicodeversion blocklist emptyblocks (e # es) u selected =
     (let selected1 = (if selected < 0 then 0 else selected);
          selected2 = (if selected1 \<ge> blocklistsize blocklist
                       then blocklistsize blocklist - 1 else selected1);
          key = fst (getch e u);
          u0 = snd (getch e u);
          ch = fst (translatekey key u0);
          u1 = snd (translatekey key u0)
      in if ch = 43 then
           blockselectui_loop unicodeversion blocklist emptyblocks es u1 (selected2 + 1)
         else if ch = 45 then
           blockselectui_loop unicodeversion blocklist emptyblocks es u1 (selected2 - 1)
         else if ch = 70 then
           blockselectui_loop unicodeversion blocklist emptyblocks es u1
             (selected2 + (ytermsize u1 - 1))
         else if ch = 66 then
           blockselectui_loop unicodeversion blocklist emptyblocks es u1
             (selected2 - (ytermsize u1 - 1))
         else if ch = 123 then
           blockselectui_loop unicodeversion blocklist emptyblocks es u1 0
         else if ch = 125 then
           blockselectui_loop unicodeversion blocklist emptyblocks es u1
             (blocklistsize blocklist)
         else if ch = 63 then
           (case es of
              [] \<Rightarrow> Waiting
            | e' # es' \<Rightarrow>
                blockselectui_loop unicodeversion blocklist emptyblocks es'
                  (snd (getch e' u1)) selected2)
         else if ch = 118 then
           (if unicodeversion \<noteq> [] then
              (case es of
                 [] \<Rightarrow> Waiting
               | e' # es' \<Rightarrow>
                   blockselectui_loop unicodeversion blocklist emptyblocks es'
                     (snd (getch e' u1)) selected2)
            else blockselectui_loop unicodeversion blocklist emptyblocks es (beep u1) selected2)
         else if ch = 12 then
           blockselectui_loop unicodeversion blocklist emptyblocks es u1 selected2
         else if ch = 113 then Return (Cancelled, u1, es)
         else if ch = 7 then Return (Cancelled, u1, es)
         else if ch = 3 then Exit Exit_interrupt
         else if ch = 10 then
           (case emptyblocks_at emptyblocks selected2 of
              None \<Rightarrow> Undefined
            | Some isempty \<Rightarrow>
                if isempty then
                  blockselectui_loop unicodeversion blocklist emptyblocks es (beep u1) selected2
                else Return (Chosen selected2, u1, es))
         else blockselectui_loop unicodeversion blocklist emptyblocks es u1 selected2)"

text \<open>
  \<open>blockselectui\<close>. The result is the new index, the global \<open>emptyblocks\<close> after the
  call, the terminal and the events not yet read.
\<close>

definition blockselectui ::
  "charinfo list \<Rightarrow> blockinfo list \<Rightarrow> string \<Rightarrow> bool list option \<Rightarrow> int \<Rightarrow> event list \<Rightarrow> ui
     \<Rightarrow> (int \<times> bool list \<times> ui \<times> event list) outcome" where
  "blockselectui charlist blocklist unicodeversion emptyblocks index es u =
     (case emptyblocksinit charlist blocklist emptyblocks of
        None \<Rightarrow> Undefined
      | Some eb \<Rightarrow>
          (case blockselect_start charlist blocklist index of
             None \<Rightarrow> Undefined
           | Some selected \<Rightarrow>
               (case blockselectui_loop unicodeversion blocklist eb es u selected of
                  Return (Cancelled, u1, es1) \<Rightarrow> Return (index, eb, u1, es1)
                | Return (Chosen sel, u1, es1) \<Rightarrow>
                    (case blocklist_at blocklist sel of
                       None \<Rightarrow> Undefined
                     | Some b \<Rightarrow>
                         (case lookupchar charlist (sint (from_b b)) of
                            None \<Rightarrow> Undefined
                          | Some r \<Rightarrow> Return (r, eb, u1, es1)))
                | Exit e \<Rightarrow> Exit e
                | Waiting \<Rightarrow> Waiting
                | Undefined \<Rightarrow> Undefined)))"

section \<open>The main table\<close>

text \<open>
  The smallest width columns are permitted to shrink to.
\<close>

definition mincolumnwidth :: int where
  "mincolumnwidth = 8"

text \<open>
  The statements at the top of the loop of \<open>mainui\<close>, before \<open>drawtable\<close> is called:
  from \<open>index\<close> and the global \<open>columncount\<close> to \<open>index\<close>, \<open>columncount\<close> and
  \<open>tablesize\<close>.
\<close>

definition mainui_clamp ::
  "charinfo list \<Rightarrow> ui \<Rightarrow> int \<Rightarrow> int \<Rightarrow> int \<times> int \<times> int" where
  "mainui_clamp charlist u index columncount =
     (let index1 = (if index < 0 then 0 else index);
          columncount1 =
            (if columncount < 1 then 1
             else if columncount > (xtermsize u - 1) sdiv (mincolumnwidth + 1)
             then (xtermsize u - 1) sdiv (mincolumnwidth + 1)
             else columncount);
          tablesize = (ytermsize u - 1) * columncount1;
          index2 = (if index1 > charlistsize charlist - tablesize
                    then charlistsize charlist - tablesize else index1)
      in (index2, columncount1, tablesize))"

text \<open>
  The first statement of \<open>drawtable\<close>, which \<open>mainui\<close> calls next:
  \<open>int colwidth = xtermsize / columncount\<close>. A division by zero is undefined (the
  process is stopped by a signal); the model makes it \<open>None\<close>.
\<close>

definition drawtable_colwidth :: "ui \<Rightarrow> int \<Rightarrow> int option" where
  "drawtable_colwidth u columncount =
     (if columncount = 0 then None else Some (xtermsize u sdiv columncount))"

section \<open>The command line\<close>

text \<open>
  The options as \<open>getopt_long\<close> delivers them one by one: \<open>-a\<close> with its argument,
  \<open>-A\<close>, \<open>--help\<close>, \<open>--version\<close>, and anything it does not recognise.
\<close>

datatype opt = Opt_a string | Opt_A | Opt_h | Opt_v | Opt_unknown

record settings =
  accentchar :: int
  showcombining :: bool

definition initial_settings :: settings where
  "initial_settings = \<lparr>accentchar = 0xB7, showcombining = True\<rparr>"

text \<open>
  A \<open>char\<close> is signed; \<open>wchar_of_char\<close> is its conversion to \<open>wchar_t\<close>.
\<close>

definition wchar_of_char :: "char \<Rightarrow> int" where
  "wchar_of_char c = (if (of_char c :: int) < 128 then of_char c else of_char c - 256)"

definition quoted :: "string \<Rightarrow> string" where
  "quoted s = [CHR 0x22] @ s @ [CHR 0x22]"

text \<open>
  The option loop of \<open>readcmdline\<close>. With an empty argument, \<open>optarg[1]\<close> lies behind
  the terminator of the string.
\<close>

fun readcmdline_opts :: "charinfo list \<Rightarrow> opt list \<Rightarrow> settings \<Rightarrow> settings outcome" where
  "readcmdline_opts charlist [] st = Return st"
| "readcmdline_opts charlist (Opt_a optarg # os) st =
     (case optarg of
        [] \<Rightarrow> Undefined
      | [c] \<Rightarrow> readcmdline_opts charlist os (st\<lparr>accentchar := wchar_of_char c\<rparr>)
      | c # d # ds \<Rightarrow>
          (case readuchar charlist optarg of
             None \<Rightarrow> Undefined
           | Some a \<Rightarrow>
               if a < 0 then Exit (Die (''invalid accent character value: '' @ quoted optarg))
               else
                 (case charlist_at charlist a of
                    None \<Rightarrow> Undefined
                  | Some e \<Rightarrow> readcmdline_opts charlist os (st\<lparr>accentchar := uval e\<rparr>))))"
| "readcmdline_opts charlist (Opt_A # os) st =
     readcmdline_opts charlist os (st\<lparr>showcombining := False\<rparr>)"
| "readcmdline_opts charlist (Opt_h # os) st = Exit Exit_help"
| "readcmdline_opts charlist (Opt_v # os) st = Exit Exit_version"
| "readcmdline_opts charlist (Opt_unknown # os) st =
     Exit (Die ''Try --help for more information.'')"

text \<open>
  The initial codepoint from the arguments that are left after the options
  (\<open>argv[optind]\<close> and what follows it). The static buffer of \<open>findcharbyname\<close> is empty
  at this point; the result carries its contents after the call.
\<close>

definition readcmdline_start ::
  "nat \<Rightarrow> string \<Rightarrow> charinfo list \<Rightarrow> (string \<Rightarrow> (int \<times> string) option) \<Rightarrow> string list
     \<Rightarrow> (int \<times> string) outcome" where
  "readcmdline_start fuel charnamebuffer charlist mbdecode args =
     (case args of
        [] \<Rightarrow> Return (0, [])
      | str # others \<Rightarrow>
          (case readsinglecharstring charlist mbdecode str of
             None \<Rightarrow> Undefined
           | Some ch1 \<Rightarrow>
               if ch1 \<ge> 0 then Return (ch1, [])
               else
                 (case readuchar charlist str of
                    None \<Rightarrow> Undefined
                  | Some ch2 \<Rightarrow>
                      if ch2 \<ge> 0 then Return (ch2, [])
                      else
                        (case findcharbyname fuel charnamebuffer charlist [] (Some str) 0 1 of
                           None \<Rightarrow> Undefined
                         | Some (ch3, lastsubstring) \<Rightarrow>
                             if ch3 \<ge> 0 then Return (ch3, lastsubstring)
                             else Exit (Die (''Invalid start value: '' @ quoted str @ ''.''))))))"

text \<open>
  \<open>readcmdline\<close>: the options, then the start value, then the test for arguments that
  are left over. The result is the initial index, the settings and the contents of the
  static search buffer.
\<close>

definition readcmdline ::
  "nat \<Rightarrow> string \<Rightarrow> charinfo list \<Rightarrow> (string \<Rightarrow> (int \<times> string) option) \<Rightarrow> opt list
     \<Rightarrow> string list \<Rightarrow> (int \<times> settings \<times> string) outcome" where
  "readcmdline fuel charnamebuffer charlist mbdecode opts args =
     (case readcmdline_opts charlist opts initial_settings of
        Return st \<Rightarrow>
          (case readcmdline_start fuel charnamebuffer charlist mbdecode args of
             Return (ch, lastsubstring) \<Rightarrow>
               if length args > 1
               then Exit (Die ''Bad command-line argument.\<newline>Try --help for more information.'')
               else Return (ch, st, lastsubstring)
           | Exit e \<Rightarrow> Exit e
           | Waiting \<Rightarrow> Waiting
           | Undefined \<Rightarrow> Undefined)
      | Exit e \<Rightarrow> Exit e
      | Waiting \<Rightarrow> Waiting
      | Undefined \<Rightarrow> Undefined)"

text \<open>
  \<open>main\<close> up to the point where the table is shown: the terminal is only initialised
  (\<open>ioinit\<close>) and \<open>mainui\<close> only entered when \<open>readcmdline\<close> returns.
\<close>

datatype startup = UI_started int settings string | Exited exit | Startup_undefined

definition main_startup ::
  "nat \<Rightarrow> string \<Rightarrow> charinfo list \<Rightarrow> (string \<Rightarrow> (int \<times> string) option) \<Rightarrow> opt list
     \<Rightarrow> string list \<Rightarrow> startup" where
  "main_startup fuel charnamebuffer charlist mbdecode opts args =
     (case readcmdline fuel charnamebuffer charlist mbdecode opts args of
        Return (startpos, st, lastsubstring) \<Rightarrow> UI_started startpos st lastsubstring
      | Exit e \<Rightarrow> Exited e
      | Waiting \<Rightarrow> Startup_undefined
      | Undefined \<Rightarrow> Startup_undefined)"

section \<open>A small table\<close>

text \<open>
  Five entries of the Unicode 10 character table and the five blocks around them, for
  running the functions on concrete data. \<open>U+0B00\<close> and \<open>U+0D80\<close>, the first
  codepoints of the blocks Oriya and Sinhala, are not assigned.
\<close>

definition demo_charlist :: "charinfo list" where
  "demo_charlist =
     [\<lparr>nameoffset = 0, namesize = 36, uchar = 0x0AFF, combining = 0\<rparr>,
      \<lparr>nameoffset = 36, namesize = 22, uchar = 0x0B01, combining = 0\<rparr>,
      \<lparr>nameoffset = 58, namesize = 25, uchar = 0x0D7F, combining = 0\<rparr>,
      \<lparr>nameoffset = 83, namesize = 23, uchar = 0x0D82, combining = 0\<rparr>,
      \<lparr>nameoffset = 106, namesize = 22, uchar = 0x0D83, combining = 0\<rparr>]"

definition demo_charnamebuffer :: string where
  "demo_charnamebuffer =
     ''GUJARATI SIGN TWO-CIRCLE NUKTA ABOVEORIYA SIGN CANDRABINDUMALAYALAM LETTER CHILLU KSINHALA SIGN ANUSVARAYASINHALA SIGN VISARGAYA''"

definition demo_blocklist :: "blockinfo list" where
  "demo_blocklist =
     [\<lparr>from_b = 0x0A80, to_b = 0x0AFF, name_b = ''Gujarati''\<rparr>,
      \<lparr>from_b = 0x0B00, to_b = 0x0B7F, name_b = ''Oriya''\<rparr>,
      \<lparr>from_b = 0x0B80, to_b = 0x0BFF, name_b = ''Tamil''\<rparr>,
      \<lparr>from_b = 0x0D00, to_b = 0x0D7F, name_b = ''Malayalam''\<rparr>,
      \<lparr>from_b = 0x0D80, to_b = 0x0DFF, name_b = ''Sinhala''\<rparr>]"

text \<open>
  A terminal of 24 rows and 80 columns, measured, with \<open>^U\<close> as its kill character.
\<close>

definition demo_ui :: ui where
  "demo_ui = \<lparr>term_rows = 24, term_cols = 80, killchar = 21,
               xtermsize = 80, ytermsize = 24, lastrow = 23, beeps = 0\<rparr>"

text \<open>
  A terminal of 4 rows and 80 columns, on which the list of the five blocks fills the
  three rows above the status line.
\<close>

definition demo_small_ui :: ui where
  "demo_small_ui = \<lparr>term_rows = 4, term_cols = 80, killchar = 21,
                     xtermsize = 80, ytermsize = 4, lastrow = 3, beeps = 0\<rparr>"

text \<open>
  A terminal of 24 rows and 9 columns, and one of a single row and 80 columns.
\<close>

definition demo_narrow_ui :: ui where
  "demo_narrow_ui = \<lparr>term_rows = 24, term_cols = 9, killchar = 21,
                      xtermsize = 9, ytermsize = 24, lastrow = 23, beeps = 0\<rparr>"

definition demo_one_row_ui :: ui where
  "demo_one_row_ui = \<lparr>term_rows = 1, term_cols = 80, killchar = 21,
                       xtermsize = 80, ytermsize = 1, lastrow = 0, beeps = 0\<rparr>"

text \<open>
  The decoder of the \<open>C\<close> locale: every byte below 128 is one character, other bytes
  are not valid.
\<close>

definition demo_mbdecode :: "string \<Rightarrow> (int \<times> string) option" where
  "demo_mbdecode s =
     (case s of
        [] \<Rightarrow> None
      | c # cs \<Rightarrow> if (of_char c :: int) < 128 then Some (of_char c, cs) else None)"

text \<open>
  A table with one entry whose name has 255 bytes, the longest that \<open>namesize\<close> allows.
\<close>

definition long_name :: string where
  "long_name = replicate 255 (CHR ''A'')"

definition long_charlist :: "charinfo list" where
  "long_charlist = [\<lparr>nameoffset = 0, namesize = 255, uchar = 0x41, combining = 0\<rparr>]"

section \<open>Properties of the data\<close>

text \<open>
  The character table is not empty and strictly ascending in its codepoints.
\<close>

definition sorted_charlist :: "charinfo list \<Rightarrow> bool" where
  "sorted_charlist charlist = (charlist \<noteq> [] \<and> sorted_wrt (<) (map uval charlist))"

text \<open>
  Every name of the table lies inside the name buffer.
\<close>

definition names_in_buffer :: "string \<Rightarrow> charinfo list \<Rightarrow> bool" where
  "names_in_buffer charnamebuffer charlist =
     list_all (\<lambda>c. unat (nameoffset c) + unat (namesize c) \<le> length charnamebuffer) charlist"

text \<open>
  \<open>best_at charlist uc n\<close>: \<open>n\<close> is an index of the table, no entry is nearer to \<open>uc\<close>
  than the one at \<open>n\<close>, and no entry above \<open>n\<close> is as near.
\<close>

definition best_at :: "charinfo list \<Rightarrow> int \<Rightarrow> int \<Rightarrow> bool" where
  "best_at charlist uc n =
     (0 \<le> n \<and> n < int (length charlist) \<and>
      (\<forall>j \<in> {..<length charlist}.
         \<bar>uc - uval (charlist ! nat n)\<bar> \<le> \<bar>uc - uval (charlist ! j)\<bar> \<and>
         (\<bar>uc - uval (charlist ! j)\<bar> = \<bar>uc - uval (charlist ! nat n)\<bar> \<longrightarrow> int j \<le> n)))"

text \<open>
  The positions that a search from \<open>startpos\<close> visits, in their order: one step in
  \<open>direction\<close> after the other, around the end of the table, with \<open>startpos\<close> itself
  as the last one.
\<close>

definition visit_order :: "int \<Rightarrow> int \<Rightarrow> int \<Rightarrow> int list" where
  "visit_order n startpos direction =
     map (\<lambda>k. (startpos + direction * k) mod n) [1..n]"

text \<open>
  \<open>entry_matches\<close>: the search accepts the entry at a position.
  \<open>entry_contains\<close>: the string occurs in the name of an entry.
  \<open>search_string\<close>: the string that a call searches for.
\<close>

definition entry_matches :: "string \<Rightarrow> charinfo list \<Rightarrow> string \<Rightarrow> int \<Rightarrow> bool" where
  "entry_matches charnamebuffer charlist substring pos =
     (case charlist_at charlist pos of
        None \<Rightarrow> False
      | Some c \<Rightarrow>
          (case charname charnamebuffer c of
             None \<Rightarrow> False
           | Some name \<Rightarrow> name_matches name substring))"

definition entry_contains :: "string \<Rightarrow> string \<Rightarrow> charinfo \<Rightarrow> bool" where
  "entry_contains charnamebuffer substring c =
     (case charname charnamebuffer c of
        None \<Rightarrow> False
      | Some name \<Rightarrow> strstr name substring)"

definition search_string :: "string \<Rightarrow> string option \<Rightarrow> string" where
  "search_string lastsubstring substring =
     (case substring of None \<Rightarrow> lastsubstring | Some s \<Rightarrow> s)"

text \<open>
  The three readings of a start value, apart from the table. \<open>single_character\<close>: the
  string decodes to one character and nothing else. \<open>hex_codepoint\<close>: after an optional
  \<open>U+\<close>, the string is a number for \<open>strtoul\<close> with base 16 (white space, a sign and
  \<open>0x\<close> may come before the digits), nothing follows the number, and its value is at
  most \<open>0x10FFFF\<close>.
\<close>

definition single_character :: "(string \<Rightarrow> (int \<times> string) option) \<Rightarrow> string \<Rightarrow> int option" where
  "single_character mbdecode str =
     (case mbdecode str of
        None \<Rightarrow> None
      | Some (ch, rest) \<Rightarrow> if rest = [] then Some ch else None)"

definition strip_uplus :: "string \<Rightarrow> string" where
  "strip_uplus str =
     (case str of
        c0 # c1 # cs \<Rightarrow> if c0 = CHR ''U'' \<and> c1 = CHR ''+'' then cs else str
      | _ \<Rightarrow> str)"

definition hex_codepoint :: "string \<Rightarrow> int option" where
  "hex_codepoint str =
     (let v = fst (strtoul16 (strip_uplus str));
          endptr = fst (snd (strtoul16 (strip_uplus str)))
      in if endptr = [] \<and> strip_uplus str \<noteq> [] \<and> v \<le> lastucharval then Some v else None)"

text \<open>
  The hex reading as the specification words it: an optional \<open>U+\<close>, then hex digits
  and nothing else, at least one of them, with a value of at most \<open>0x10FFFF\<close>.
\<close>

definition spec_hex_codepoint :: "string \<Rightarrow> int option" where
  "spec_hex_codepoint str =
     (let ds = strip_uplus str
      in if ds \<noteq> [] \<and> list_all is_hex ds \<and> hexval 0 ds \<le> lastucharval
         then Some (hexval 0 ds) else None)"

text \<open>
  The message of the program for a start value that none of the readings accepts.
\<close>

definition invalid_start_value :: "string \<Rightarrow> exit" where
  "invalid_start_value str = Die (''Invalid start value: '' @ quoted str @ ''.'')"

chapter \<open>ubrowse: properties\<close>

section \<open>The binary search\<close>

lemma uval_strict_mono:
  assumes "sorted_wrt (<) (map uval cl)" "i < j" "j < length cl"
  shows "uval (cl ! i) < uval (cl ! j)"
  using sorted_wrt_nth_less [OF assms(1), of i j] assms(2,3) by simp

lemma uval_mono_int:
  assumes "sorted_wrt (<) (map uval cl)" "0 \<le> i" "i < j" "j < int (length cl)"
  shows "uval (cl ! nat i) < uval (cl ! nat j)"
  using uval_strict_mono [OF assms(1), of "nat i" "nat j"] assms(2-4) by simp

lemma uval_range: "0 \<le> uval c \<and> uval c < 2 ^ 21"
  using uint_bounded [of "uchar c"] by (simp add: uval_def)

lemma sdiv2: "0 \<le> a \<Longrightarrow> a sdiv 2 = a div (2::int)"
  by (simp add: signed_divide_int_def sgn_if)

text \<open>
  When the loop is left at its end, the index it picks is a best one.
\<close>

lemma lookupchar_loop_exit:
  assumes srt: "sorted_wrt (<) (map uval cl)"
    and rng: "0 \<le> t" "t \<le> b" "b < int (length cl)" "\<not> b - t > 1"
    and lo: "t = 0 \<or> uval (cl ! nat t) < u"
    and hi: "b = int (length cl) - 1 \<or> u < uval (cl ! nat b)"
  shows "best_at cl u (if u - uval (cl ! nat t) < uval (cl ! nat b) - u then t else b)"
proof -
  have tb: "uval (cl ! nat t) \<le> uval (cl ! nat b)"
    using uval_mono_int [OF srt, of t b] rng by (cases "t = b") auto
  have tb': "t = b \<or> uval (cl ! nat t) < uval (cl ! nat b)"
    using uval_mono_int [OF srt, of t b] rng by (cases "t = b") auto
  have below: "uval (cl ! j) < uval (cl ! nat t) \<and> uval (cl ! nat t) < u" if "int j < t" for j
  proof -
    from that rng have "t \<noteq> 0" by simp
    with lo have "uval (cl ! nat t) < u" by simp
    moreover have "uval (cl ! nat (int j)) < uval (cl ! nat t)"
      using uval_mono_int [OF srt, of "int j" t] that rng by simp
    ultimately show ?thesis by simp
  qed
  have above: "uval (cl ! nat b) < uval (cl ! j) \<and> u < uval (cl ! nat b)"
    if "b < int j" "j < length cl" for j
  proof -
    from that rng have "b \<noteq> int (length cl) - 1" by simp
    with hi have "u < uval (cl ! nat b)" by simp
    moreover have "uval (cl ! nat b) < uval (cl ! nat (int j))"
      using uval_mono_int [OF srt, of b "int j"] that rng by simp
    ultimately show ?thesis by simp
  qed
  have cover: "int j < t \<or> int j = t \<or> int j = b \<or> b < int j" for j
    using rng by linarith
  show ?thesis
  proof (cases "u - uval (cl ! nat t) < uval (cl ! nat b) - u")
    case True
    have "\<bar>u - uval (cl ! nat t)\<bar> \<le> \<bar>u - uval (cl ! j)\<bar> \<and>
        (\<bar>u - uval (cl ! j)\<bar> = \<bar>u - uval (cl ! nat t)\<bar> \<longrightarrow> int j \<le> t)"
      if "j < length cl" for j
      using cover [of j] below [of j] above [of j] that True tb tb'
      by (elim disjE) (auto simp: abs_if split: if_splits)
    with True rng show ?thesis by (simp add: best_at_def)
  next
    case False
    have "\<bar>u - uval (cl ! nat b)\<bar> \<le> \<bar>u - uval (cl ! j)\<bar> \<and>
        (\<bar>u - uval (cl ! j)\<bar> = \<bar>u - uval (cl ! nat b)\<bar> \<longrightarrow> int j \<le> b)"
      if "j < length cl" for j
      using cover [of j] below [of j] above [of j] that False tb tb' rng
      by (elim disjE) (auto simp: abs_if split: if_splits)
    with False rng show ?thesis by (simp add: best_at_def)
  qed
qed

lemma best_at_exact:
  assumes srt: "sorted_wrt (<) (map uval cl)"
    and rng: "0 \<le> n" "n < int (length cl)" and eq: "uval (cl ! nat n) = u"
  shows "best_at cl u n"
proof -
  have "int j \<le> n" if "j < length cl" "\<bar>u - uval (cl ! j)\<bar> = 0" for j
  proof (rule ccontr)
    assume "\<not> int j \<le> n"
    then have "uval (cl ! nat n) < uval (cl ! nat (int j))"
      using uval_mono_int [OF srt, of n "int j"] rng that by simp
    with that eq show False by simp
  qed
  with rng eq show ?thesis by (simp add: best_at_def)
qed

text \<open>
  The invariant of the loop: \<open>top'\<close> is 0 or its entry is below the target, and
  \<open>bottom'\<close> is the last index or its entry is above the target.
\<close>

lemma lookupchar_loop_best:
  assumes "sorted_wrt (<) (map uval cl)"
    and "0 \<le> t" "t \<le> b" "b < int (length cl)"
    and "t = 0 \<or> uval (cl ! nat t) < u"
    and "b = int (length cl) - 1 \<or> u < uval (cl ! nat b)"
  shows "\<exists>n. lookupchar_loop cl u t b = Some n \<and> best_at cl u n"
  using assms
proof (induction cl u t b rule: lookupchar_loop.induct)
  case (1 cl u t b)
  show ?case
  proof (cases "b - t > 1")
    case False
    have "charlist_at cl t = Some (cl ! nat t)" "charlist_at cl b = Some (cl ! nat b)"
      using "1.prems" by (simp_all add: charlist_at_def)
    moreover note lookupchar_loop_exit [OF "1.prems"(1-4) False "1.prems"(5,6)]
    ultimately show ?thesis using False
      by (subst lookupchar_loop.simps) (simp split: if_splits)
  next
    case True
    define n where "n = (t + b) sdiv 2"
    have n: "t < n" "n < b"
      using True "1.prems"(2) by (simp_all add: n_def sdiv2)
    have at: "charlist_at cl n = Some (cl ! nat n)"
      using n "1.prems" by (simp add: charlist_at_def)
    consider (lt) "uval (cl ! nat n) < u" | (gt) "uval (cl ! nat n) > u"
      | (eq) "uval (cl ! nat n) = u"
      by linarith
    then show ?thesis
    proof cases
      case lt
      have "\<exists>r. lookupchar_loop cl u n b = Some r \<and> best_at cl u r"
        using "1.IH"(1) [OF True n_def at lt] "1.prems" n lt by simp
      then show ?thesis
        using True at lt by (subst lookupchar_loop.simps) (simp add: n_def [symmetric] Let_def)
    next
      case gt
      have "\<exists>r. lookupchar_loop cl u t n = Some r \<and> best_at cl u r"
        using "1.IH"(2) [OF True n_def at _ gt] "1.prems" n gt by simp
      then show ?thesis
        using True at gt by (subst lookupchar_loop.simps) (simp add: n_def [symmetric] Let_def)
    next
      case eq
      have "best_at cl u n"
        using best_at_exact [OF "1.prems"(1) _ _ eq] n "1.prems" by simp
      then show ?thesis
        using True at eq by (subst lookupchar_loop.simps) (simp add: n_def [symmetric] Let_def)
    qed
  qed
qed

lemma lookupchar_best:
  assumes "sorted_charlist cl"
  shows "\<exists>n. lookupchar cl u = Some n \<and> best_at cl u n"
proof -
  from assms have ne: "cl \<noteq> []" and srt: "sorted_wrt (<) (map uval cl)"
    by (simp_all add: sorted_charlist_def)
  show ?thesis
    unfolding lookupchar_def charlistsize_def
    using lookupchar_loop_best [OF srt, of 0 "int (length cl) - 1" u] ne
    by (simp add: Suc_leI)
qed

text \<open>
  A codepoint of the table is found at its own index.
\<close>

lemma lookupchar_exact:
  assumes "sorted_charlist cl" "0 \<le> i" "i < int (length cl)"
  shows "lookupchar cl (uval (cl ! nat i)) = Some i"
proof -
  from assms have srt: "sorted_wrt (<) (map uval cl)"
    by (simp add: sorted_charlist_def)
  obtain n where n: "lookupchar cl (uval (cl ! nat i)) = Some n"
    and best: "best_at cl (uval (cl ! nat i)) n"
    using lookupchar_best [OF assms(1)] by blast
  from best assms have "uval (cl ! nat n) = uval (cl ! nat i)"
    by (auto simp: best_at_def dest!: bspec [where x = "nat i"])
  moreover from best have "0 \<le> n" "n < int (length cl)"
    by (simp_all add: best_at_def)
  ultimately have "n = i"
    using uval_mono_int [OF srt, of n i] uval_mono_int [OF srt, of i n] assms(2,3)
    by (cases "n < i"; cases "i < n") auto
  with n show ?thesis by simp
qed

section \<open>The small table\<close>

lemma demo_sorted: "sorted_charlist demo_charlist"
  by (simp add: sorted_charlist_def demo_charlist_def uval_def)

lemma demo_uvals:
  "uval (demo_charlist ! 0) = 0x0AFF" "uval (demo_charlist ! Suc 0) = 0x0B01"
  "uval (demo_charlist ! 2) = 0x0D7F" "uval (demo_charlist ! 3) = 0x0D82"
  "uval (demo_charlist ! 4) = 0x0D83" "length demo_charlist = 5"
  by (simp_all add: demo_charlist_def uval_def)

section \<open>Claims about the codepoint index\<close>

text \<open>
  C1, as amended. For every codepoint value from 0 to \<open>0x10FFFF\<close> and every table that
  is not empty and strictly ascending, \<open>lookupchar\<close> returns an index of the table, no
  entry of the table is nearer to the value than the entry at that index, and when the
  two entries around the value are equally far from it, the index returned is the higher
  of the two (the claim says the lower one).
\<close>

theorem lookupchar_nearest:
  assumes "sorted_charlist charlist" and "0 \<le> uc" and "uc \<le> lastucharval"
  shows "\<exists>n. lookupchar charlist uc = Some n \<and> 0 \<le> n \<and> n < charlistsize charlist \<and>
           (\<forall>c \<in> set charlist. \<bar>uc - uval (charlist ! nat n)\<bar> \<le> \<bar>uc - uval c\<bar>) \<and>
           (\<forall>i. 0 \<le> i \<and> i + 1 < charlistsize charlist \<and>
                 uval (charlist ! nat i) < uc \<and> uc < uval (charlist ! nat (i + 1)) \<and>
                 uc - uval (charlist ! nat i) = uval (charlist ! nat (i + 1)) - uc
                 \<longrightarrow> n = i + 1)"
proof -
  from assms(1) have srt: "sorted_wrt (<) (map uval charlist)"
    by (simp add: sorted_charlist_def)
  obtain n where n: "lookupchar charlist uc = Some n" and best: "best_at charlist uc n"
    using lookupchar_best [OF assms(1)] by blast
  from best have rng: "0 \<le> n" "n < int (length charlist)"
    by (simp_all add: best_at_def)
  have near: "\<bar>uc - uval (charlist ! nat n)\<bar> \<le> \<bar>uc - uval c\<bar>" if "c \<in> set charlist" for c
  proof -
    from that obtain j where "j < length charlist" "c = charlist ! j"
      by (auto simp: in_set_conv_nth)
    with best show ?thesis by (simp add: best_at_def)
  qed
  have tie: "n = i + 1"
    if i: "0 \<le> i" "i + 1 < charlistsize charlist"
      and str: "uval (charlist ! nat i) < uc" "uc < uval (charlist ! nat (i + 1))"
      and eq: "uc - uval (charlist ! nat i) = uval (charlist ! nat (i + 1)) - uc" for i
  proof -
    from i have i1: "nat (i + 1) < length charlist" "int (nat (i + 1)) = i + 1"
      by (simp_all add: charlistsize_def)
    from best i1 have le: "\<bar>uc - uval (charlist ! nat n)\<bar> \<le> \<bar>uc - uval (charlist ! nat (i + 1))\<bar>"
      and up: "\<bar>uc - uval (charlist ! nat (i + 1))\<bar> = \<bar>uc - uval (charlist ! nat n)\<bar> \<longrightarrow> i + 1 \<le> n"
      by (auto simp: best_at_def dest!: bspec [where x = "nat (i + 1)"])
    have "\<not> n < i"
      using uval_mono_int [OF srt, of n i] rng i le str eq by (auto simp: charlistsize_def)
    moreover have "n \<noteq> i"
      using up str eq by auto
    moreover have "\<not> i + 1 < n"
      using uval_mono_int [OF srt, of "i + 1" n] rng i le str by auto
    ultimately show ?thesis by linarith
  qed
  from n rng near tie show ?thesis
    by (auto simp: charlistsize_def)
qed

theorem lookupchar_nearest_witness:
  "sorted_charlist demo_charlist \<and> (0::int) \<le> 0x0B00 \<and> 0x0B00 \<le> lastucharval \<and>
   lookupchar demo_charlist 0x0B00 = Some 1"
proof -
  have r: "(0::int) \<le> 0x0B00" "0x0B00 \<le> lastucharval"
    by (simp_all add: lastucharval_def)
  obtain n where n: "lookupchar demo_charlist 0x0B00 = Some n"
    and tie: "\<forall>i. 0 \<le> i \<and> i + 1 < charlistsize demo_charlist \<and>
                 uval (demo_charlist ! nat i) < 0x0B00 \<and> 0x0B00 < uval (demo_charlist ! nat (i + 1)) \<and>
                 0x0B00 - uval (demo_charlist ! nat i) = uval (demo_charlist ! nat (i + 1)) - 0x0B00
                 \<longrightarrow> n = i + 1"
    using lookupchar_nearest [OF demo_sorted r] by blast
  from tie [rule_format, of 0] have "n = 1"
    by (simp add: demo_uvals charlistsize_def)
  with n r demo_sorted show ?thesis by simp
qed

text \<open>
  C1 as stated fails on the small table: \<open>U+0B00\<close> lies between the entries at the
  indices 0 and 1, at distance 1 from both, and the index returned is 1, not 0.
\<close>

theorem lookupchar_tie_counterexample:
  "sorted_charlist demo_charlist \<and>
   uval (demo_charlist ! 0) < 0x0B00 \<and> 0x0B00 < uval (demo_charlist ! 1) \<and>
   0x0B00 - uval (demo_charlist ! 0) = uval (demo_charlist ! 1) - 0x0B00 \<and>
   lookupchar demo_charlist 0x0B00 = Some 1 \<and>
   lookupchar demo_charlist 0x0B00 \<noteq> Some 0"
  by (simp add: demo_sorted demo_uvals lookupchar_def lookupchar_loop.simps charlistsize_def
      charlist_at_def signed_divide_int_def)

text \<open>
  C6, as amended. For every index \<open>i\<close> of the table and every offset \<open>d\<close> for which
  the codepoint at \<open>i\<close> plus \<open>d\<close> is itself a codepoint of the table, \<open>offsetchar\<close> with
  \<open>d\<close> and then with \<open>- d\<close> returns to \<open>i\<close>, which is also where \<open>lookupchar\<close> finds the
  codepoint at \<open>i\<close>.
\<close>

theorem offsetchar_round_trip:
  assumes "sorted_charlist charlist"
    and "0 \<le> i" "i < charlistsize charlist"
    and "0 \<le> j" "j < charlistsize charlist"
    and "uval (charlist ! nat j) = uval (charlist ! nat i) + d"
  shows "offsetchar charlist i d = Some j \<and> offsetchar charlist j (- d) = Some i \<and>
         lookupchar charlist (uval (charlist ! nat i)) = Some i"
proof -
  have i: "charlist_at charlist i = Some (charlist ! nat i)"
    and j: "charlist_at charlist j = Some (charlist ! nat j)"
    using assms(2-5) by (simp_all add: charlist_at_def charlistsize_def)
  have li: "lookupchar charlist (uval (charlist ! nat i)) = Some i"
    and lj: "lookupchar charlist (uval (charlist ! nat j)) = Some j"
    using lookupchar_exact [OF assms(1)] assms(2-5) by (simp_all add: charlistsize_def)
  have "offsetchar charlist i d = Some j"
    using i lj assms(6) by (simp add: offsetchar_def)
  moreover have "uval (charlist ! nat j) + - d = uval (charlist ! nat i)"
    using assms(6) by simp
  then have "offsetchar charlist j (- d) = Some i"
    using j li by (simp add: offsetchar_def)
  ultimately show ?thesis using li by simp
qed

theorem offsetchar_round_trip_witness:
  "sorted_charlist demo_charlist \<and> (3::int) < charlistsize demo_charlist \<and>
   uval (demo_charlist ! nat 3) = uval (demo_charlist ! nat 2) + 3 \<and>
   offsetchar demo_charlist 2 3 = Some 3 \<and> offsetchar demo_charlist 3 (- 3) = Some 2"
proof -
  have h: "(0::int) \<le> 2" "(2::int) < charlistsize demo_charlist"
    "(0::int) \<le> 3" "(3::int) < charlistsize demo_charlist"
    "uval (demo_charlist ! nat 3) = uval (demo_charlist ! nat 2) + 3"
    by (simp_all add: charlistsize_def demo_uvals)
  from offsetchar_round_trip [OF demo_sorted h] h demo_sorted show ?thesis by simp
qed

text \<open>
  C6 as stated fails on the small table: from index 4 (\<open>U+0D83\<close>) the offset \<open>- 3\<close>
  leads to index 2 (\<open>U+0D7F\<close>, the nearest entry to the unassigned \<open>U+0D80\<close>), and the
  offset 3 from there leads to index 3 (\<open>U+0D82\<close>), not back to index 4.
\<close>

theorem offsetchar_round_trip_counterexample:
  "sorted_charlist demo_charlist \<and>
   offsetchar demo_charlist 4 (- 3) = Some 2 \<and>
   offsetchar demo_charlist 2 3 = Some 3 \<and>
   lookupchar demo_charlist (uval (demo_charlist ! 4)) = Some 4 \<and>
   uval (demo_charlist ! 3) \<noteq> uval (demo_charlist ! 4)"
  by (simp add: demo_sorted demo_uvals offsetchar_def lookupchar_def lookupchar_loop.simps
      charlistsize_def charlist_at_def signed_divide_int_def)

section \<open>Claims about the empty blocks\<close>

lemma emptyblock_True_iff:
  assumes "sorted_charlist cl"
  shows "emptyblock cl b = Some (\<forall>c \<in> set cl. \<not> in_block b c)"
proof (cases "\<forall>c \<in> set cl. \<not> in_block b c")
  case True
  obtain n where n: "lookupchar cl (sint (from_b b)) = Some n"
    and best: "best_at cl (sint (from_b b)) n"
    using lookupchar_best [OF assms] by blast
  from best have rng: "0 \<le> n" "n < int (length cl)"
    by (simp_all add: best_at_def)
  have "\<not> in_block b (cl ! nat n)"
    using True rng by simp
  moreover have "\<not> in_block b (cl ! nat (n + 1))" if "n + 1 < int (length cl)"
    using True rng that by simp
  ultimately have "emptyblock cl b = Some True"
    using n rng by (simp add: emptyblock_def charlist_at_def charlistsize_def)
  with True show ?thesis by simp
next
  case False
  then obtain c where c: "c \<in> set cl" "in_block b c" by blast
  then obtain j where j: "j < length cl" "cl ! j = c"
    by (auto simp: in_set_conv_nth)
  from assms have srt: "sorted_wrt (<) (map uval cl)"
    by (simp add: sorted_charlist_def)
  define f where "f = uint (from_b b)"
  define t where "t = uint (to_b b)"
  have cj: "f \<le> uval (cl ! j)" "uval (cl ! j) \<le> t"
    using c j by (simp_all add: in_block_def f_def t_def)
  have "f < 2 ^ 21"
    using cj uval_range [of "cl ! j"] by simp
  moreover have "0 \<le> f"
    by (simp add: f_def)
  ultimately have "signed_take_bit 31 f = f"
    by (intro signed_take_bit_int_eq_self) simp_all
  then have sf: "sint (from_b b) = f"
    unfolding f_def by (simp add: sint_uint)
  obtain n where n: "lookupchar cl f = Some n" and best: "best_at cl f n"
    using lookupchar_best [OF assms, of f] by blast
  from best have rng: "0 \<le> n" "n < int (length cl)"
    by (simp_all add: best_at_def)
  have near: "\<bar>f - uval (cl ! nat n)\<bar> \<le> \<bar>f - uval (cl ! k)\<bar>" if "k < length cl" for k
    using best that by (simp add: best_at_def)
  have at: "charlist_at cl n = Some (cl ! nat n)"
    using rng by (simp add: charlist_at_def)
  have "emptyblock cl b = Some False"
  proof (cases "in_block b (cl ! nat n)")
    case True
    then show ?thesis
      using n at sf by (simp add: emptyblock_def)
  next
    case out: False
    have below: "uval (cl ! nat n) < f"
    proof (rule ccontr)
      assume "\<not> uval (cl ! nat n) < f"
      with out have "t < uval (cl ! nat n)"
        by (simp add: in_block_def f_def t_def)
      with cj near [OF j(1)] show False by simp
    qed
    have nj: "n < int j"
    proof (rule ccontr)
      assume "\<not> n < int j"
      then have "uval (cl ! nat (int j)) \<le> uval (cl ! nat n)"
        using uval_mono_int [OF srt, of "int j" n] rng by (cases "int j = n") auto
      with below cj show False by simp
    qed
    then have n1: "n + 1 < int (length cl)" "n + 1 \<le> int j"
      using j by simp_all
    have le: "uval (cl ! nat (n + 1)) \<le> uval (cl ! j)"
      using uval_mono_int [OF srt, of "n + 1" "int j"] n1 rng j
      by (cases "n + 1 = int j") auto
    have "f \<le> uval (cl ! nat (n + 1))"
    proof (rule ccontr)
      assume "\<not> f \<le> uval (cl ! nat (n + 1))"
      moreover have "uval (cl ! nat n) < uval (cl ! nat (n + 1))"
        using uval_mono_int [OF srt, of n "n + 1"] rng n1 by simp
      moreover have "nat (n + 1) < length cl"
        using n1 rng by linarith
      ultimately show False
        using near [of "nat (n + 1)"] below by linarith
    qed
    with le cj have "in_block b (cl ! nat (n + 1))"
      by (simp add: in_block_def f_def t_def)
    moreover have "charlist_at cl (n + 1) = Some (cl ! nat (n + 1))"
      using n1 rng by (simp add: charlist_at_def)
    ultimately show ?thesis
      using n at sf out n1 by (simp add: emptyblock_def charlistsize_def)
  qed
  with False show ?thesis by simp
qed

lemma emptyblocks_fill_correct:
  assumes "sorted_charlist cl"
  shows "emptyblocks_fill cl bl = Some (map (\<lambda>b. \<forall>c \<in> set cl. \<not> in_block b c) bl)"
  by (induction bl) (simp_all add: emptyblock_True_iff [OF assms])

text \<open>
  C4. For a table that is not empty and strictly ascending, \<open>emptyblocksinit\<close> produces
  one flag for every block, and the flag of a block is true if and only if no entry of
  the table has its codepoint within the bounds \<open>from\<close> and \<open>to\<close> of the block. A second
  call leaves the array as it is.
\<close>

theorem emptyblocksinit_correct:
  assumes "sorted_charlist charlist"
  shows "\<exists>eb. emptyblocksinit charlist blocklist None = Some eb \<and>
           length eb = length blocklist \<and>
           (\<forall>i \<in> {..<length blocklist}.
              eb ! i = (\<forall>c \<in> set charlist.
                          \<not> (uint (from_b (blocklist ! i)) \<le> uval c \<and>
                             uval c \<le> uint (to_b (blocklist ! i))))) \<and>
           emptyblocksinit charlist blocklist (Some eb) = Some eb"
  using emptyblocks_fill_correct [OF assms, of blocklist]
  by (simp add: emptyblocksinit_def in_block_def)

theorem emptyblocksinit_correct_witness:
  "sorted_charlist demo_charlist \<and>
   emptyblocksinit demo_charlist demo_blocklist None = Some [False, False, True, False, False]"
proof -
  obtain eb where eb: "emptyblocksinit demo_charlist demo_blocklist None = Some eb"
    and len: "length eb = length demo_blocklist"
    and flags: "\<forall>i \<in> {..<length demo_blocklist}.
              eb ! i = (\<forall>c \<in> set demo_charlist.
                          \<not> (uint (from_b (demo_blocklist ! i)) \<le> uval c \<and>
                             uval c \<le> uint (to_b (demo_blocklist ! i))))"
    using emptyblocksinit_correct [OF demo_sorted, of demo_blocklist] by blast
  have "eb ! 0 = False" "eb ! 1 = False" "eb ! 2 = True" "eb ! 3 = False" "eb ! 4 = False"
    using flags by (simp_all add: demo_blocklist_def demo_charlist_def uval_def)
  moreover from len have "length eb = 5" by (simp add: demo_blocklist_def)
  ultimately have "eb = [False, False, True, False, False]"
    by (auto simp: list_eq_iff_nth_eq less_Suc_eq numeral_eq_Suc)
  with eb demo_sorted show ?thesis by simp
qed

section \<open>Claims about the main table\<close>

text \<open>
  On a terminal of at least 10 columns the statements at the top of the loop of
  \<open>mainui\<close> leave \<open>columncount\<close> between 1 and the width minus 1, divided by
  \<open>mincolumnwidth + 1\<close> and rounded down.
\<close>

lemma mainui_clamp_columncount:
  assumes "10 \<le> xtermsize u"
  shows "1 \<le> fst (snd (mainui_clamp charlist u index columncount)) \<and>
         fst (snd (mainui_clamp charlist u index columncount))
           \<le> (xtermsize u - 1) div (mincolumnwidth + 1)"
proof -
  have pos: "0 \<le> xtermsize u - 1" using assms by simp
  have eq: "(xtermsize u - 1) sdiv (mincolumnwidth + 1) = (xtermsize u - 1) div 9"
    using pos by (simp add: signed_divide_int_def sgn_if mincolumnwidth_def)
  have one: "1 \<le> (xtermsize u - 1) div 9"
    using assms by linarith
  show ?thesis
    using one by (simp add: mainui_clamp_def Let_def eq) (simp add: mincolumnwidth_def)
qed

lemma mainui_clamp_columncount_wide:
  "(10::int) \<le> xtermsize demo_ui \<and>
   fst (snd (mainui_clamp demo_charlist demo_ui 0 20)) = 8 \<and>
   (xtermsize demo_ui - 1) div (mincolumnwidth + 1) = 8"
proof -
  have h: "10 \<le> xtermsize demo_ui" by (simp add: demo_ui_def)
  have b: "(xtermsize demo_ui - 1) div (mincolumnwidth + 1) = 8"
    by (simp add: demo_ui_def mincolumnwidth_def)
  have "20 > (xtermsize demo_ui - 1) sdiv (mincolumnwidth + 1)"
    by (simp add: demo_ui_def mincolumnwidth_def signed_divide_int_def)
  then have "fst (snd (mainui_clamp demo_charlist demo_ui 0 20))
      = (xtermsize demo_ui - 1) sdiv (mincolumnwidth + 1)"
    by (simp add: mainui_clamp_def Let_def)
  moreover have "(xtermsize demo_ui - 1) sdiv (mincolumnwidth + 1) \<ge> 8"
    by (simp add: demo_ui_def mincolumnwidth_def signed_divide_int_def)
  ultimately show ?thesis
    using mainui_clamp_columncount [OF h, of demo_charlist 0 20] h b by simp
qed

text \<open>
  C3 on a terminal of 9 columns, with the column count 2 that the program starts with.
  The claim asks for a column count of at least 1 for every width. The first branch of
  the clamp does so for a count below 1, but the second branch then sets the count 2 to
  the upper bound, which is 0 for this width, and the division in the first statement
  of \<open>drawtable\<close> is a division by zero.
\<close>

theorem mainui_clamp_narrow_terminal:
  "mainui_clamp demo_charlist demo_narrow_ui 0 2 = (0, 0, 0) \<and>
   drawtable_colwidth demo_narrow_ui (fst (snd (mainui_clamp demo_charlist demo_narrow_ui 0 2)))
     = None \<and>
   (xtermsize demo_narrow_ui - 1) div (mincolumnwidth + 1) = 0"
  by (simp add: mainui_clamp_def Let_def demo_narrow_ui_def mincolumnwidth_def
      signed_divide_int_def drawtable_colwidth_def charlistsize_def demo_uvals)

section \<open>Claims about the search in the names\<close>

lemma starts_with_iff: "starts_with h n \<longleftrightarrow> (\<exists>ss. h = n @ ss)"
  by (induction h n rule: starts_with.induct) auto

lemma strstr_iff: "strstr h n \<longleftrightarrow> (\<exists>ps ss. h = ps @ n @ ss)"
proof (induction h)
  case Nil
  then show ?case by auto
next
  case (Cons a h)
  show ?case
  proof
    assume "strstr (a # h) n"
    then consider "starts_with (a # h) n" | "strstr h n" by auto
    then show "\<exists>ps ss. a # h = ps @ n @ ss"
    proof cases
      case 1
      then obtain ss where "a # h = [] @ n @ ss" by (auto simp: starts_with_iff)
      then show ?thesis by blast
    next
      case 2
      with Cons obtain ps ss where "h = ps @ n @ ss" by blast
      then have "a # h = (a # ps) @ n @ ss" by simp
      then show ?thesis by blast
    qed
  next
    assume "\<exists>ps ss. a # h = ps @ n @ ss"
    then obtain ps ss where eq: "a # h = ps @ n @ ss" by blast
    show "strstr (a # h) n"
    proof (cases ps)
      case Nil
      with eq have "starts_with (a # h) n" by (auto simp: starts_with_iff)
      then show ?thesis by simp
    next
      case (Cons b ps')
      with eq have "h = ps' @ n @ ss" by simp
      with Cons.IH have "strstr h n" by blast
      then show ?thesis by simp
    qed
  qed
qed

lemma strstr_cstring: "strstr (cstring name) s \<Longrightarrow> strstr name s"
proof -
  assume "strstr (cstring name) s"
  then obtain ps ss where "cstring name = ps @ s @ ss"
    by (auto simp: strstr_iff)
  then have "name = ps @ s @ (ss @ dropWhile (\<lambda>c. c \<noteq> NUL) name)"
    using takeWhile_dropWhile_id [of "\<lambda>c. c \<noteq> NUL" name] by (simp add: cstring_def)
  then show ?thesis
    unfolding strstr_iff by blast
qed

lemma wrap_mod:
  assumes "0 \<le> pos" "pos < n" "d = 1 \<or> d = - 1"
  shows "(if pos + d \<ge> n then 0 else if pos + d < 0 then n - 1 else pos + d) = (pos + d) mod (n::int)"
proof -
  from assms(3) show ?thesis
  proof
    assume d: "d = 1"
    show ?thesis
    proof (cases "pos + 1 \<ge> n")
      case True
      with assms have "pos + 1 = n" by simp
      with d show ?thesis by simp
    next
      case False
      with assms d show ?thesis by simp
    qed
  next
    assume d: "d = - 1"
    show ?thesis
    proof (cases "pos = 0")
      case True
      with assms d show ?thesis by (simp add: zmod_minus1)
    next
      case False
      with assms d show ?thesis by simp
    qed
  qed
qed

lemma back_at_start:
  assumes "0 \<le> startpos" "startpos < n" "d = 1 \<or> d = - 1" "1 \<le> k" "k \<le> n"
  shows "(startpos + d * k) mod n = startpos \<longleftrightarrow> k = (n::int)"
proof
  assume "(startpos + d * k) mod n = startpos"
  with assms(1,2) have "(startpos + d * k) mod n = startpos mod n" by simp
  then have "n dvd (startpos + d * k) - startpos"
    by (simp only: mod_eq_dvd_iff)
  then have "n dvd d * k" by simp
  with assms(3) have "n dvd k" by auto
  with assms(4,5) show "k = n"
    using zdvd_imp_le [of n k] by simp
next
  assume "k = n"
  with assms(1,2) show "(startpos + d * k) mod n = startpos" by simp
qed

lemma entry_matches_in_range:
  assumes "names_in_buffer buf cl" "0 \<le> p" "p < int (length cl)"
  shows "charlist_at cl p = Some (cl ! nat p)"
    and "\<exists>name. charname buf (cl ! nat p) = Some name \<and>
           entry_matches buf cl s p = name_matches name s"
proof -
  show at: "charlist_at cl p = Some (cl ! nat p)"
    using assms(2,3) by (simp add: charlist_at_def)
  have "cl ! nat p \<in> set cl" using assms(2,3) by simp
  with assms(1) have "unat (nameoffset (cl ! nat p)) + unat (namesize (cl ! nat p)) \<le> length buf"
    by (simp add: names_in_buffer_def list_all_iff)
  then show "\<exists>name. charname buf (cl ! nat p) = Some name \<and>
           entry_matches buf cl s p = name_matches name s"
    using at by (simp add: charname_def entry_matches_def)
qed

lemma findcharbyname_loop_find:
  assumes names: "names_in_buffer buf cl"
    and start: "0 \<le> startpos" "startpos < charlistsize cl"
    and dir: "direction = 1 \<or> direction = - 1"
    and j: "0 \<le> j" "j < charlistsize cl"
    and fuel: "charlistsize cl - j \<le> int fuel"
  shows "findcharbyname_loop fuel buf cl s startpos direction
           ((startpos + direction * j) mod charlistsize cl)
         = Some (case find (entry_matches buf cl s)
                        (map (\<lambda>k. (startpos + direction * k) mod charlistsize cl)
                           [j + 1..charlistsize cl]) of
                   None \<Rightarrow> - 1 | Some p \<Rightarrow> p)"
  using j fuel
proof (induction fuel arbitrary: j)
  case 0
  then show ?case by simp
next
  case (Suc fuel)
  define n where "n = charlistsize cl"
  define pos where "pos = (startpos + direction * j) mod n"
  define pos2 where "pos2 = (startpos + direction * (j + 1)) mod n"
  have npos: "0 < n" using Suc.prems by (simp add: n_def)
  have pos: "0 \<le> pos" "pos < n" using npos by (simp_all add: pos_def)
  have "(pos + direction) mod n = (startpos + direction * j + direction) mod n"
    unfolding pos_def by (rule mod_add_left_eq)
  also have "startpos + direction * j + direction = startpos + direction * (j + 1)"
    by (simp add: algebra_simps)
  finally have step_mod: "(pos + direction) mod n = pos2"
    by (simp add: pos2_def)
  have wrap: "(if pos + direction \<ge> charlistsize cl then 0
                   else if pos + direction < 0 then charlistsize cl - 1
                   else pos + direction) = pos2"
    using wrap_mod [OF pos dir] step_mod unfolding n_def by simp
  have p2: "0 \<le> pos2" "pos2 < int (length cl)"
    using npos by (simp_all add: pos2_def n_def charlistsize_def)
  obtain name where at: "charlist_at cl pos2 = Some (cl ! nat pos2)"
    and name: "charname buf (cl ! nat pos2) = Some name"
    and m: "entry_matches buf cl s pos2 = name_matches name s"
    using entry_matches_in_range [OF names p2] by blast
  have upto: "[j + 1..n] = (j + 1) # [j + 1 + 1..n]"
    using Suc.prems by (simp add: n_def upto_rec1)
  have again: "pos2 = startpos \<longleftrightarrow> j + 1 = n"
    unfolding pos2_def
    using back_at_start [OF start(1) _ dir, of n "j + 1"] start(2) Suc.prems by (simp add: n_def)
  have step: "findcharbyname_loop (Suc fuel) buf cl s startpos direction pos
      = (if name_matches name s then Some pos2
         else if pos2 = startpos then Some (- 1)
         else findcharbyname_loop fuel buf cl s startpos direction pos2)"
    by (simp only: findcharbyname_loop.simps Let_def wrap at name option.case)
  show ?case
  proof (cases "name_matches name s")
    case True
    then show ?thesis
      using step m upto by (simp add: n_def [symmetric] pos_def [symmetric] pos2_def [symmetric])
  next
    case nomatch: False
    show ?thesis
    proof (cases "j + 1 = n")
      case True
      then have "[j + 1 + 1..n] = []" by simp
      moreover have "startpos mod n = startpos"
        using start by (simp add: n_def)
      ultimately show ?thesis
        using step m upto nomatch again True
        by (simp add: n_def [symmetric] pos_def [symmetric] pos2_def [symmetric])
    next
      case False
      then have "j + 1 < charlistsize cl" using Suc.prems by (simp add: n_def)
      moreover have "charlistsize cl - (j + 1) \<le> int fuel" using Suc.prems by simp
      ultimately have "findcharbyname_loop fuel buf cl s startpos direction pos2
         = Some (case find (entry_matches buf cl s)
                        (map (\<lambda>k. (startpos + direction * k) mod n) [j + 1 + 1..n]) of
                   None \<Rightarrow> - 1 | Some p \<Rightarrow> p)"
        using Suc.IH [of "j + 1"] Suc.prems(1) by (simp add: n_def pos2_def)
      then show ?thesis
        using step m upto nomatch again False
        by (simp add: n_def [symmetric] pos_def [symmetric] pos2_def [symmetric])
    qed
  qed
qed

lemma findcharbyname_loop_visit:
  assumes "names_in_buffer buf cl" "0 \<le> startpos" "startpos < charlistsize cl"
    and "direction = 1 \<or> direction = - 1" "length cl \<le> fuel"
  shows "findcharbyname_loop fuel buf cl s startpos direction startpos
         = Some (case find (entry_matches buf cl s)
                        (visit_order (charlistsize cl) startpos direction) of
                   None \<Rightarrow> - 1 | Some p \<Rightarrow> p)"
proof -
  have "charlistsize cl - 0 \<le> int fuel"
    using assms(5) by (simp add: charlistsize_def)
  from findcharbyname_loop_find [OF assms(1-4) _ _ this, of s] assms(2,3)
  show ?thesis by (simp add: visit_order_def)
qed

lemma no_match_if_not_contained:
  assumes "\<forall>c \<in> set cl. \<not> entry_contains buf s c"
  shows "\<not> entry_matches buf cl s p"
proof
  assume m: "entry_matches buf cl s p"
  then obtain c name where c: "charlist_at cl p = Some c" "charname buf c = Some name"
    "name_matches name s"
    by (auto simp: entry_matches_def split: option.splits)
  then have "c \<in> set cl"
    by (auto simp: charlist_at_def split: if_splits)
  moreover have "strstr name s"
    using c(3) by (simp add: name_matches_def strstr_cstring)
  ultimately show False
    using assms c(2) by (auto simp: entry_contains_def)
qed

lemma find_none_if_not_contained:
  assumes "\<forall>c \<in> set cl. \<not> entry_contains buf s c"
  shows "find (entry_matches buf cl s) ps = None"
  using no_match_if_not_contained [OF assms] by (simp add: find_None_iff)

lemma find_visit_range:
  assumes "0 < n" "find P (visit_order n startpos direction) = Some p"
  shows "0 \<le> p \<and> p < n"
proof -
  from assms(2) have "p \<in> set (visit_order n startpos direction)"
    by (auto simp: find_Some_iff in_set_conv_nth)
  with assms(1) show ?thesis by (auto simp: visit_order_def)
qed

lemma demo_names: "names_in_buffer demo_charnamebuffer demo_charlist"
  by (simp add: names_in_buffer_def demo_charnamebuffer_def demo_charlist_def)

lemma demo_charnames:
  "charname demo_charnamebuffer (demo_charlist ! 0) = Some ''GUJARATI SIGN TWO-CIRCLE NUKTA ABOVE''"
  "charname demo_charnamebuffer (demo_charlist ! Suc 0) = Some ''ORIYA SIGN CANDRABINDU''"
  "charname demo_charnamebuffer (demo_charlist ! 2) = Some ''MALAYALAM LETTER CHILLU K''"
  "charname demo_charnamebuffer (demo_charlist ! 3) = Some ''SINHALA SIGN ANUSVARAYA''"
  "charname demo_charnamebuffer (demo_charlist ! 4) = Some ''SINHALA SIGN VISARGAYA''"
  by (simp_all add: charname_def demo_charnamebuffer_def demo_charlist_def)

lemma demo_set:
  "set demo_charlist = {demo_charlist ! 0, demo_charlist ! Suc 0, demo_charlist ! 2,
     demo_charlist ! 3, demo_charlist ! 4}"
  by (simp add: demo_charlist_def)

text \<open>
  For every search string, every index \<open>startpos\<close> of the table and the directions
  1 and \<open>- 1\<close>, \<open>findcharbyname\<close> returns, and it does so within as many iterations
  as the table has entries (one full wrap). When the loop runs, its result is the first
  position that the search accepts among the positions after \<open>startpos\<close>, taken one
  step after the other around the end of the table with \<open>startpos\<close> as the last, and it
  is negative when there is none. When no name of the table contains the string, the
  result is negative and the static buffer is unchanged.
\<close>

lemma findcharbyname_inside_table:
  assumes "names_in_buffer charnamebuffer charlist"
    and "0 \<le> startpos" and "startpos < charlistsize charlist"
    and "direction = 1 \<or> direction = - 1"
    and "length charlist \<le> fuel"
  shows "\<exists>r last'.
           findcharbyname fuel charnamebuffer charlist lastsubstring substring startpos direction
             = Some (r, last') \<and>
           ((case substring of None \<Rightarrow> lastsubstring \<noteq> [] | Some s \<Rightarrow> length s < 255) \<longrightarrow>
              r = (case find (entry_matches charnamebuffer charlist
                               (search_string lastsubstring substring))
                          (visit_order (charlistsize charlist) startpos direction) of
                     None \<Rightarrow> - 1 | Some p \<Rightarrow> p)) \<and>
           ((\<forall>c \<in> set charlist.
                \<not> entry_contains charnamebuffer (search_string lastsubstring substring) c) \<longrightarrow>
              r = - 1 \<and> last' = lastsubstring)"
proof (cases substring)
  case None
  show ?thesis
  proof (cases "lastsubstring = []")
    case True
    with None show ?thesis by (simp add: findcharbyname_def)
  next
    case False
    with None show ?thesis
      using findcharbyname_loop_visit [OF assms, of lastsubstring]
        find_none_if_not_contained [of charlist charnamebuffer lastsubstring]
      by (auto simp: findcharbyname_def search_string_def)
  qed
next
  case (Some s)
  show ?thesis
  proof (cases "length s \<ge> 255")
    case True
    with Some show ?thesis by (simp add: findcharbyname_def)
  next
    case False
    with Some show ?thesis
      using findcharbyname_loop_visit [OF assms, of s]
        find_none_if_not_contained [of charlist charnamebuffer s]
      by (auto simp: findcharbyname_def search_string_def)
  qed
qed

lemma findcharbyname_inside_table_demo:
  "names_in_buffer demo_charnamebuffer demo_charlist \<and>
   (1::int) < charlistsize demo_charlist \<and>
   length demo_charlist \<le> 5 \<and>
   findcharbyname 5 demo_charnamebuffer demo_charlist ''SIGN'' (Some ''XYZ'') 1 (- 1)
     = Some (- 1, ''SIGN'') \<and>
   findcharbyname 5 demo_charnamebuffer demo_charlist [] (Some ''SIGN'') 1 1
     = Some (3, ''SIGN'')"
proof -
  have h: "(0::int) \<le> 1" "(1::int) < charlistsize demo_charlist"
    "length demo_charlist \<le> 5"
    by (simp_all add: charlistsize_def demo_uvals)
  have absent: "\<forall>c \<in> set demo_charlist.
      \<not> entry_contains demo_charnamebuffer (search_string ''SIGN'' (Some ''XYZ'')) c"
    by (simp add: demo_set entry_contains_def demo_charnames search_string_def)
  have d1: "(- 1 :: int) = 1 \<or> (- 1 :: int) = - 1" by simp
  from findcharbyname_inside_table [OF demo_names h(1,2) d1 h(3), of "''SIGN''" "Some ''XYZ''"]
  obtain r last' where
    "findcharbyname 5 demo_charnamebuffer demo_charlist ''SIGN'' (Some ''XYZ'') 1 (- 1)
       = Some (r, last')"
    and "(\<forall>c \<in> set demo_charlist.
            \<not> entry_contains demo_charnamebuffer (search_string ''SIGN'' (Some ''XYZ'')) c)
         \<longrightarrow> r = - 1 \<and> last' = ''SIGN''"
    by (elim exE conjE) (rule that; assumption)
  with absent have first: "findcharbyname 5 demo_charnamebuffer demo_charlist ''SIGN''
      (Some ''XYZ'') 1 (- 1) = Some (- 1, ''SIGN'')"
    by simp
  have d2: "(1 :: int) = 1 \<or> (1 :: int) = - 1" by simp
  have order: "visit_order (charlistsize demo_charlist) 1 1 = [2, 3, 4, 0, 1]"
    by (simp add: visit_order_def charlistsize_def demo_uvals upto.simps)
  have m: "\<not> entry_matches demo_charnamebuffer demo_charlist ''SIGN'' 2"
    "entry_matches demo_charnamebuffer demo_charlist ''SIGN'' 3"
    by (simp_all add: entry_matches_def charlist_at_def demo_uvals demo_charnames
        name_matches_def memchr_def first_char_def cstring_def NUL_def)
  from findcharbyname_inside_table [OF demo_names h(1,2) d2 h(3), of "[]" "Some ''SIGN''"]
  obtain r last' where run: "findcharbyname 5 demo_charnamebuffer demo_charlist [] (Some ''SIGN'') 1 1
       = Some (r, last')"
    and "(case Some ''SIGN'' of None \<Rightarrow> ([]::string) \<noteq> [] | Some s \<Rightarrow> length s < 255) \<longrightarrow>
         r = (case find (entry_matches demo_charnamebuffer demo_charlist
                           (search_string [] (Some ''SIGN'')))
                      (visit_order (charlistsize demo_charlist) 1 1) of
                None \<Rightarrow> - 1 | Some p \<Rightarrow> p)"
    by (elim exE conjE) (rule that; assumption)
  then have "r = 3"
    using m by (simp add: order search_string_def)
  with run have "findcharbyname 5 demo_charnamebuffer demo_charlist [] (Some ''SIGN'') 1 1
       = Some (3, ''SIGN'')"
    by (auto simp: findcharbyname_def split: option.splits)
  with first demo_names h show ?thesis by simp
qed

text \<open>
  With a start position that is not an index of the table, the loop never comes back to
  it: every position it visits has been folded into the table before the comparison. When
  the search accepts no entry, no amount of fuel gives a result.
\<close>

lemma findcharbyname_loop_outside:
  assumes out: "startpos < 0 \<or> charlistsize cl \<le> startpos"
    and none: "\<And>p. \<not> entry_matches buf cl s p"
  shows "findcharbyname_loop fuel buf cl s startpos direction pos = None"
proof (induction fuel arbitrary: pos)
  case 0
  show ?case by (simp add: findcharbyname_loop.simps)
next
  case (Suc fuel)
  define pos2 where "pos2 = (if pos + direction \<ge> charlistsize cl then 0
                   else if pos + direction < 0 then charlistsize cl - 1
                   else pos + direction)"
  show ?case
  proof (cases "charlist_at cl pos2")
    case None
    then show ?thesis
      by (simp add: findcharbyname_loop.simps Let_def pos2_def [symmetric])
  next
    case (Some c)
    then have rng: "0 \<le> pos2" "pos2 < charlistsize cl"
      by (auto simp: charlist_at_def charlistsize_def split: if_splits)
    with out have ne: "pos2 \<noteq> startpos" by auto
    show ?thesis
    proof (cases "charname buf c")
      case None
      with Some show ?thesis
        by (simp add: findcharbyname_loop.simps Let_def pos2_def [symmetric])
    next
      case (Some name)
      with \<open>charlist_at cl pos2 = Some c\<close> none [of pos2] have "\<not> name_matches name s"
        by (simp add: entry_matches_def)
      with Some \<open>charlist_at cl pos2 = Some c\<close> ne Suc.IH [of pos2] show ?thesis
        by (simp add: findcharbyname_loop.simps Let_def pos2_def [symmetric])
    qed
  qed
qed

lemma demo_no_XYZ: "\<not> entry_matches demo_charnamebuffer demo_charlist ''XYZ'' p"
proof -
  have "\<forall>c \<in> set demo_charlist. \<not> entry_contains demo_charnamebuffer ''XYZ'' c"
    by (simp add: demo_set entry_contains_def demo_charnames)
  from no_match_if_not_contained [OF this] show ?thesis .
qed

text \<open>
  C7 on the small table. The claim asks for a return, with a negative value, for every
  start index when no name contains the string, as the comment above \<open>findcharbyname\<close>
  does. On a terminal of one row, the statements at the top of the loop of \<open>mainui\<close>
  let the index 5 pass, which is the size of the table; a search from there for a string
  that no name contains does not return, whatever the fuel.
\<close>

theorem findcharbyname_outside_table:
  "findcharbyname fuel demo_charnamebuffer demo_charlist [] (Some ''XYZ'') 5 1 = None \<and>
   charlistsize demo_charlist = 5 \<and>
   mainui_clamp demo_charlist demo_one_row_ui 5 2 = (5, 2, 0)"
proof -
  have "findcharbyname_loop fuel demo_charnamebuffer demo_charlist ''XYZ'' 5 1 5 = None"
    by (rule findcharbyname_loop_outside) (simp_all add: charlistsize_def demo_uvals demo_no_XYZ)
  moreover have "mainui_clamp demo_charlist demo_one_row_ui 5 2 = (5, 2, 0)"
    by (simp add: mainui_clamp_def Let_def demo_one_row_ui_def mincolumnwidth_def
        signed_divide_int_def charlistsize_def demo_uvals)
  ultimately show ?thesis
    by (simp add: findcharbyname_def charlistsize_def demo_uvals)
qed

text \<open>
  C9. For every search string of at least 255 bytes, every start index and every
  direction, \<open>findcharbyname\<close> returns a negative value without searching (no fuel is
  needed), also when a name contains the string, and the static buffer is unchanged.
\<close>

theorem findcharbyname_long_substring:
  assumes "length s \<ge> 255"
  shows "findcharbyname fuel charnamebuffer charlist lastsubstring (Some s) startpos direction
         = Some (- 1, lastsubstring)"
  using assms by (simp add: findcharbyname_def)

theorem findcharbyname_long_substring_witness:
  "length long_name \<ge> 255 \<and>
   entry_contains long_name long_name (long_charlist ! 0) \<and>
   findcharbyname 1 long_name long_charlist ''SIGN'' (Some long_name) 0 1
     = Some (- 1, ''SIGN'')"
proof -
  have len: "length long_name \<ge> 255" by (simp add: long_name_def)
  have "charname long_name (long_charlist ! 0) = Some long_name"
    by (simp add: charname_def long_charlist_def long_name_def)
  moreover have "strstr long_name long_name"
    unfolding strstr_iff by (rule exI [of _ "[]"], rule exI [of _ "[]"]) simp
  ultimately have "entry_contains long_name long_name (long_charlist ! 0)"
    by (simp add: entry_contains_def)
  with len findcharbyname_long_substring [OF len, of 1 long_name long_charlist "''SIGN''" 0 1]
  show ?thesis by simp
qed

section \<open>Claims about the command line\<close>

lemma is_hex_not_special:
  assumes "is_hex c"
  shows "\<not> isspace c" "c \<noteq> CHR ''-''" "c \<noteq> CHR ''+''" "c \<noteq> CHR ''x''" "c \<noteq> CHR ''X''"
    "c \<noteq> CHR ''U''"
  using assms
  by (auto simp: is_hex_def hexdigit_def isspace_def Let_def split: if_splits)

lemma takeWhile_all: "\<forall>c \<in> set ds. P c \<Longrightarrow> takeWhile P ds = ds"
  by (induction ds) auto

lemma dropWhile_all: "\<forall>c \<in> set ds. P c \<Longrightarrow> dropWhile P ds = []"
  by (induction ds) auto

lemma strtoul16_hex:
  assumes ne: "ds \<noteq> []" and hex: "\<forall>c \<in> set ds. is_hex c" and small: "hexval 0 ds \<le> ULONG_MAX"
  shows "strtoul16 ds = (hexval 0 ds, [], False)"
proof -
  from ne obtain c cs where ds: "ds = c # cs" by (cases ds) auto
  with hex have c: "is_hex c" by simp
  have s1: "dropWhile isspace ds = ds"
    using is_hex_not_special(1) [OF c] by (simp add: ds)
  have s3: "(case ds of
               z # x # h # r \<Rightarrow>
                 if z = CHR ''0'' \<and> (x = CHR ''x'' \<or> x = CHR ''X'') \<and> is_hex h
                 then h # r else ds
             | _ \<Rightarrow> ds) = ds"
  proof (cases cs)
    case Nil
    with ds show ?thesis by simp
  next
    case (Cons x r)
    with ds hex have "is_hex x" by simp
    from is_hex_not_special(4,5) [OF this] ds Cons show ?thesis
      by (cases r) simp_all
  qed
  have neg: "(case ds of [] \<Rightarrow> False | c # cs \<Rightarrow> c = CHR ''-'') = False"
    using is_hex_not_special(2) [OF c] by (simp add: ds)
  have s2: "(case ds of [] \<Rightarrow> ds
             | c # cs \<Rightarrow> if c = CHR ''-'' \<or> c = CHR ''+'' then cs else ds) = ds"
    using is_hex_not_special(2,3) [OF c] by (simp add: ds)
  have "strtoul16 ds =
      (if ds = [] then (0, ds, False)
       else if hexval 0 ds > ULONG_MAX then (ULONG_MAX, [], True)
       else if False then ((2 ^ 64 - hexval 0 ds) mod 2 ^ 64, [], False)
       else (hexval 0 ds, [], False))"
    by (simp only: strtoul16_def Let_def s1 neg s2 s3 takeWhile_all [OF hex]
        dropWhile_all [OF hex])
  with ne small show ?thesis by simp
qed

lemma readuchar_hex:
  assumes "optarg = ds \<or> optarg = ''U+'' @ ds"
    and ne: "ds \<noteq> []" and hex: "\<forall>c \<in> set ds. is_hex c"
    and small: "hexval 0 ds \<le> lastucharval"
  shows "readuchar charlist optarg = lookupchar charlist (hexval 0 ds)"
proof -
  have strip: "(case optarg of
                  c0 # c1 # cs \<Rightarrow> if c0 = CHR ''U'' \<and> c1 = CHR ''+'' then cs else optarg
                | _ \<Rightarrow> optarg) = ds"
    using assms(1)
  proof
    assume eq: "optarg = ds"
    from ne obtain c cs where ds: "ds = c # cs" by (cases ds) auto
    with hex have "c \<noteq> CHR ''U''" using is_hex_not_special(6) [of c] by auto
    with eq ds show ?thesis by (cases cs) simp_all
  next
    assume "optarg = ''U+'' @ ds"
    then show ?thesis by simp
  qed
  have "hexval 0 ds \<le> ULONG_MAX"
    using small by (simp add: lastucharval_def ULONG_MAX_def)
  from strtoul16_hex [OF ne hex this] strip small ne show ?thesis
    by (simp add: readuchar_def Let_def)
qed

lemma hexval_0D80: "hexval 0 ''0D80'' = 0x0D80"
  by (simp add: hexdigit_def)

text \<open>
  C10. When the argument of \<open>-a\<close> is longer than one character and consists of hex
  digits, with or without \<open>U+\<close> in front, whose value is at most \<open>0x10FFFF\<close> and is not
  a codepoint of the table, then \<open>accentchar\<close> is set to the codepoint of the entry that
  \<open>lookupchar\<close> finds for the value, which is a nearest entry and differs from the
  value, and the option loop goes on without an error.
\<close>

theorem accent_option_nearest:
  assumes "sorted_charlist charlist"
    and "optarg = ds \<or> optarg = ''U+'' @ ds"
    and "length optarg > 1"
    and "ds \<noteq> []" and "\<forall>c \<in> set ds. is_hex c"
    and "hexval 0 ds \<le> lastucharval"
    and "hexval 0 ds \<notin> uval ` set charlist"
  shows "\<exists>n. lookupchar charlist (hexval 0 ds) = Some n \<and>
           0 \<le> n \<and> n < charlistsize charlist \<and>
           (\<forall>c \<in> set charlist.
              \<bar>hexval 0 ds - uval (charlist ! nat n)\<bar> \<le> \<bar>hexval 0 ds - uval c\<bar>) \<and>
           uval (charlist ! nat n) \<noteq> hexval 0 ds \<and>
           readcmdline_opts charlist (Opt_a optarg # os) st
             = readcmdline_opts charlist os (st\<lparr>accentchar := uval (charlist ! nat n)\<rparr>)"
proof -
  obtain n where n: "lookupchar charlist (hexval 0 ds) = Some n"
    and best: "best_at charlist (hexval 0 ds) n"
    using lookupchar_best [OF assms(1)] by blast
  from best have rng: "0 \<le> n" "n < int (length charlist)"
    by (simp_all add: best_at_def)
  have near: "\<bar>hexval 0 ds - uval (charlist ! nat n)\<bar> \<le> \<bar>hexval 0 ds - uval c\<bar>"
    if "c \<in> set charlist" for c
  proof -
    from that obtain j where "j < length charlist" "c = charlist ! j"
      by (auto simp: in_set_conv_nth)
    with best show ?thesis by (simp add: best_at_def)
  qed
  have "charlist ! nat n \<in> set charlist" using rng by simp
  with assms(7) have other: "uval (charlist ! nat n) \<noteq> hexval 0 ds" by force
  have ru: "readuchar charlist optarg = Some n"
    using readuchar_hex [OF assms(2,4,5,6)] n by simp
  from assms(3) obtain c d r where optarg: "optarg = c # d # r"
    by (cases optarg; cases "tl optarg") auto
  have at: "charlist_at charlist n = Some (charlist ! nat n)"
    using rng by (simp add: charlist_at_def)
  have "readcmdline_opts charlist (Opt_a optarg # os) st
      = readcmdline_opts charlist os (st\<lparr>accentchar := uval (charlist ! nat n)\<rparr>)"
    using ru rng at unfolding optarg by simp
  with n rng near other show ?thesis
    by (auto simp: charlistsize_def)
qed

theorem accent_option_nearest_witness:
  "sorted_charlist demo_charlist \<and> length ''0D80'' > 1 \<and>
   hexval 0 ''0D80'' = 0x0D80 \<and> hexval 0 ''0D80'' \<le> lastucharval \<and>
   hexval 0 ''0D80'' \<notin> uval ` set demo_charlist \<and>
   readcmdline_opts demo_charlist [Opt_a ''0D80''] initial_settings
     = Return \<lparr>accentchar = 0x0D7F, showcombining = True\<rparr>"
proof -
  have h: "''0D80'' = ''0D80'' \<or> ''0D80'' = ''U+'' @ ''0D80''" "length ''0D80'' > 1"
    "''0D80'' \<noteq> []" "\<forall>c \<in> set ''0D80''. is_hex c" "hexval 0 ''0D80'' \<le> lastucharval"
    "hexval 0 ''0D80'' \<notin> uval ` set demo_charlist"
    by (simp_all add: hexval_0D80 lastucharval_def is_hex_def hexdigit_def demo_set demo_uvals)
  from accent_option_nearest [OF demo_sorted h, of "[]" initial_settings]
  obtain n where n: "lookupchar demo_charlist (hexval 0 ''0D80'') = Some n"
    and r: "readcmdline_opts demo_charlist [Opt_a ''0D80''] initial_settings
             = readcmdline_opts demo_charlist [] (initial_settings\<lparr>accentchar := uval (demo_charlist ! nat n)\<rparr>)"
    by (elim exE conjE) (rule that; assumption)
  have "lookupchar demo_charlist 0x0D80 = Some 2"
    by (simp add: demo_uvals lookupchar_def lookupchar_loop.simps charlistsize_def
        charlist_at_def signed_divide_int_def)
  with n [unfolded hexval_0D80] have "n = 2" by simp
  with r have "readcmdline_opts demo_charlist [Opt_a ''0D80''] initial_settings
     = Return \<lparr>accentchar = 0x0D7F, showcombining = True\<rparr>"
    by (simp add: demo_uvals initial_settings_def)
  with h(5,6) demo_sorted show ?thesis
    unfolding hexval_0D80 by simp
qed

lemma best_at_unique:
  assumes "best_at cl u n" "best_at cl u m"
  shows "n = m"
proof -
  from assms have rn: "0 \<le> n" "n < int (length cl)" and rm: "0 \<le> m" "m < int (length cl)"
    by (simp_all add: best_at_def)
  have nm: "\<bar>u - uval (cl ! nat n)\<bar> \<le> \<bar>u - uval (cl ! nat m)\<bar>"
    and nm': "\<bar>u - uval (cl ! nat m)\<bar> = \<bar>u - uval (cl ! nat n)\<bar> \<longrightarrow> m \<le> n"
    using assms(1) rm by (auto simp: best_at_def dest!: bspec [where x = "nat m"])
  have mn: "\<bar>u - uval (cl ! nat m)\<bar> \<le> \<bar>u - uval (cl ! nat n)\<bar>"
    and mn': "\<bar>u - uval (cl ! nat n)\<bar> = \<bar>u - uval (cl ! nat m)\<bar> \<longrightarrow> n \<le> m"
    using assms(2) rn by (auto simp: best_at_def dest!: bspec [where x = "nat n"])
  from nm mn nm' mn' show ?thesis by linarith
qed

lemma readsinglecharstring_reading:
  "readsinglecharstring cl mbdecode str =
     (case single_character mbdecode str of
        None \<Rightarrow> Some (- 1) | Some ch \<Rightarrow> lookupchar cl ch)"
  by (simp add: readsinglecharstring_def single_character_def split: option.splits)

lemma readuchar_reading:
  "readuchar cl str =
     (case hex_codepoint str of None \<Rightarrow> Some (- 1) | Some v \<Rightarrow> lookupchar cl v)"
proof -
  have strip: "(case str of
                  c0 # c1 # cs \<Rightarrow> if c0 = CHR ''U'' \<and> c1 = CHR ''+'' then cs else str
                | _ \<Rightarrow> str) = strip_uplus str"
    by (simp add: strip_uplus_def)
  obtain v p e where st: "strtoul16 (strip_uplus str) = (v, p, e)"
    by (cases "strtoul16 (strip_uplus str)") auto
  have big: "ULONG_MAX > lastucharval"
    by (simp add: ULONG_MAX_def lastucharval_def)
  show ?thesis
    unfolding readuchar_def strip Let_def hex_codepoint_def st
    using big by auto
qed

lemma findcharbyname_from_0:
  assumes "sorted_charlist cl" "names_in_buffer buf cl" "length cl \<le> fuel"
  shows "findcharbyname fuel buf cl [] (Some str) 0 1 =
           (if length str \<ge> 255 then Some (- 1, [])
            else (case find (entry_matches buf cl str) (visit_order (charlistsize cl) 0 1) of
                    None \<Rightarrow> Some (- 1, [])
                  | Some p \<Rightarrow> Some (p, str)))"
proof -
  from assms(1) have pos: "(0::int) < charlistsize cl"
    by (simp add: sorted_charlist_def charlistsize_def)
  have dir: "(1::int) = 1 \<or> (1::int) = - 1" by simp
  have loop: "findcharbyname_loop fuel buf cl str 0 1 0
         = Some (case find (entry_matches buf cl str) (visit_order (charlistsize cl) 0 1) of
                   None \<Rightarrow> - 1 | Some p \<Rightarrow> p)"
    using findcharbyname_loop_visit [OF assms(2) _ pos dir assms(3), of str] by simp
  show ?thesis
  proof (cases "find (entry_matches buf cl str) (visit_order (charlistsize cl) 0 1)")
    case None
    with loop show ?thesis by (simp add: findcharbyname_def)
  next
    case (Some p)
    from find_visit_range [OF pos Some] have "0 \<le> p" by simp
    with loop Some show ?thesis by (simp add: findcharbyname_def)
  qed
qed

text \<open>
  C8, as amended. With one argument left after the options, and the options read without
  leaving the program, the start value is read in this order. If the argument is a single
  character, the table starts at the entry nearest to that character. Otherwise, if it
  is a hex codepoint, the table starts at the entry nearest to its value; a hex codepoint
  is, after an optional \<open>U+\<close>, what \<open>strtoul\<close> reads with base 16 up to the end of the
  argument (the hex digits may come after white space, a sign and \<open>0x\<close>; the claim has
  hex digits only, which is one of these forms), with a value of at most \<open>0x10FFFF\<close>.
  Otherwise the table starts at the first entry that the search for the argument accepts,
  going from index 1 around the end of the table to index 0, and when there is none, or
  the argument has 255 bytes or more, the program leaves with the message about the
  invalid start value and a status that is not 0, and \<open>main\<close> does not reach the
  terminal.
\<close>

theorem readcmdline_start_value:
  assumes "sorted_charlist charlist" and "names_in_buffer charnamebuffer charlist"
    and "length charlist \<le> fuel"
    and "readcmdline_opts charlist opts initial_settings = Return st"
  shows "(\<forall>ch. single_character mbdecode str = Some ch \<and> 0 \<le> ch \<longrightarrow>
            (\<exists>n. best_at charlist ch n \<and>
                 main_startup fuel charnamebuffer charlist mbdecode opts [str]
                   = UI_started n st [])) \<and>
         (\<forall>v. single_character mbdecode str = None \<and> hex_codepoint str = Some v \<longrightarrow>
            (\<exists>n. best_at charlist v n \<and>
                 main_startup fuel charnamebuffer charlist mbdecode opts [str]
                   = UI_started n st [])) \<and>
         (single_character mbdecode str = None \<and> hex_codepoint str = None \<longrightarrow>
            main_startup fuel charnamebuffer charlist mbdecode opts [str]
              = (if length str \<ge> 255 then Exited (invalid_start_value str)
                 else (case find (entry_matches charnamebuffer charlist str)
                                 (visit_order (charlistsize charlist) 0 1) of
                         None \<Rightarrow> Exited (invalid_start_value str)
                       | Some p \<Rightarrow> UI_started p st str))) \<and>
         (\<forall>v. spec_hex_codepoint str = Some v \<longrightarrow> hex_codepoint str = Some v) \<and>
         exit_status (invalid_start_value str) \<noteq> 0"
proof (intro conjI allI impI)
  fix ch
  assume "single_character mbdecode str = Some ch \<and> 0 \<le> ch"
  then have s: "single_character mbdecode str = Some ch" by simp
  obtain n where n: "lookupchar charlist ch = Some n" and best: "best_at charlist ch n"
    using lookupchar_best [OF assms(1)] by blast
  from best have "0 \<le> n" by (simp add: best_at_def)
  with n s have "main_startup fuel charnamebuffer charlist mbdecode opts [str] = UI_started n st []"
    by (simp add: main_startup_def readcmdline_def readcmdline_start_def assms(4)
        readsinglecharstring_reading)
  with best show "\<exists>n. best_at charlist ch n \<and>
      main_startup fuel charnamebuffer charlist mbdecode opts [str] = UI_started n st []"
    by blast
next
  fix v
  assume "single_character mbdecode str = None \<and> hex_codepoint str = Some v"
  then have s: "single_character mbdecode str = None" and h: "hex_codepoint str = Some v"
    by simp_all
  obtain n where n: "lookupchar charlist v = Some n" and best: "best_at charlist v n"
    using lookupchar_best [OF assms(1)] by blast
  from best have "0 \<le> n" by (simp add: best_at_def)
  with n s h have "main_startup fuel charnamebuffer charlist mbdecode opts [str]
      = UI_started n st []"
    by (simp add: main_startup_def readcmdline_def readcmdline_start_def assms(4)
        readsinglecharstring_reading readuchar_reading)
  with best show "\<exists>n. best_at charlist v n \<and>
      main_startup fuel charnamebuffer charlist mbdecode opts [str] = UI_started n st []"
    by blast
next
  assume "single_character mbdecode str = None \<and> hex_codepoint str = None"
  then have s: "single_character mbdecode str = None" and h: "hex_codepoint str = None"
    by simp_all
  have inrange: "0 \<le> p"
    if "find (entry_matches charnamebuffer charlist str)
          (visit_order (charlistsize charlist) 0 1) = Some p" for p
  proof -
    from assms(1) have "(0::int) < charlistsize charlist"
      by (simp add: sorted_charlist_def charlistsize_def)
    from find_visit_range [OF this that] show ?thesis by simp
  qed
  show "main_startup fuel charnamebuffer charlist mbdecode opts [str]
      = (if length str \<ge> 255 then Exited (invalid_start_value str)
         else (case find (entry_matches charnamebuffer charlist str)
                         (visit_order (charlistsize charlist) 0 1) of
                 None \<Rightarrow> Exited (invalid_start_value str)
               | Some p \<Rightarrow> UI_started p st str))"
    using s h inrange
    by (auto simp: main_startup_def readcmdline_def readcmdline_start_def assms(4)
        readsinglecharstring_reading readuchar_reading invalid_start_value_def
        findcharbyname_from_0 [OF assms(1-3)] split: option.splits)
next
  fix v
  assume sp: "spec_hex_codepoint str = Some v"
  define ds where "ds = strip_uplus str"
  from sp have ne: "ds \<noteq> []" and hex: "\<forall>c \<in> set ds. is_hex c"
    and small: "hexval 0 ds \<le> lastucharval" and v: "v = hexval 0 ds"
    by (auto simp: spec_hex_codepoint_def Let_def ds_def list_all_iff split: if_splits)
  have "hexval 0 ds \<le> ULONG_MAX"
    using small by (simp add: lastucharval_def ULONG_MAX_def)
  from strtoul16_hex [OF ne hex this] ne small v
  show "hex_codepoint str = Some v"
    by (simp add: hex_codepoint_def Let_def ds_def [symmetric])
next
  show "exit_status (invalid_start_value str) \<noteq> 0"
    by (simp add: invalid_start_value_def)
qed

lemma demo_readings:
  "single_character demo_mbdecode ''A'' = Some 65"
  "lookupchar demo_charlist 65 = Some 0"
  "single_character demo_mbdecode '' D83'' = None"
  "hex_codepoint '' D83'' = Some 0x0D83"
  "spec_hex_codepoint '' D83'' = None"
  "lookupchar demo_charlist 0x0D83 = Some 4"
  "single_character demo_mbdecode ''SINHALA'' = None"
  "hex_codepoint ''SINHALA'' = None"
  "single_character demo_mbdecode ''xyz'' = None"
  "hex_codepoint ''xyz'' = None"
  by code_simp+

lemma demo_finds:
  "find (entry_matches demo_charnamebuffer demo_charlist ''SINHALA'')
     (visit_order (charlistsize demo_charlist) 0 1) = Some 3"
  "find (entry_matches demo_charnamebuffer demo_charlist ''xyz'')
     (visit_order (charlistsize demo_charlist) 0 1) = None"
  "find (entry_matches demo_charnamebuffer demo_charlist '' D83'')
     (visit_order (charlistsize demo_charlist) 0 1) = None"
  by code_simp+

lemma demo_best:
  "best_at demo_charlist 65 0" "best_at demo_charlist 0x0D83 4"
  using lookupchar_best [OF demo_sorted, of 65] lookupchar_best [OF demo_sorted, of "0x0D83"]
  by (simp_all add: demo_readings)

theorem readcmdline_start_value_witness:
  "sorted_charlist demo_charlist \<and> names_in_buffer demo_charnamebuffer demo_charlist \<and>
   length demo_charlist \<le> 5 \<and>
   readcmdline_opts demo_charlist [Opt_A] initial_settings
     = Return \<lparr>accentchar = 0xB7, showcombining = False\<rparr> \<and>
   main_startup 5 demo_charnamebuffer demo_charlist demo_mbdecode [Opt_A] [''A'']
     = UI_started 0 \<lparr>accentchar = 0xB7, showcombining = False\<rparr> [] \<and>
   main_startup 5 demo_charnamebuffer demo_charlist demo_mbdecode [Opt_A] ['' D83'']
     = UI_started 4 \<lparr>accentchar = 0xB7, showcombining = False\<rparr> [] \<and>
   main_startup 5 demo_charnamebuffer demo_charlist demo_mbdecode [Opt_A] [''SINHALA'']
     = UI_started 3 \<lparr>accentchar = 0xB7, showcombining = False\<rparr> ''SINHALA'' \<and>
   main_startup 5 demo_charnamebuffer demo_charlist demo_mbdecode [Opt_A] [''xyz'']
     = Exited (invalid_start_value ''xyz'')"
proof -
  define st where "st = \<lparr>accentchar = 0xB7, showcombining = False\<rparr>"
  have len: "length demo_charlist \<le> 5" by (simp add: demo_uvals)
  have opts: "readcmdline_opts demo_charlist [Opt_A] initial_settings = Return st"
    by (simp add: initial_settings_def st_def)
  note start = readcmdline_start_value [OF demo_sorted demo_names len opts, of demo_mbdecode]
  from start [of "''A''"] obtain n where
    "best_at demo_charlist 65 n"
    "main_startup 5 demo_charnamebuffer demo_charlist demo_mbdecode [Opt_A] [''A'']
       = UI_started n st []"
    by (auto simp: demo_readings)
  with best_at_unique [OF demo_best(1)]
  have a: "main_startup 5 demo_charnamebuffer demo_charlist demo_mbdecode [Opt_A] [''A'']
       = UI_started 0 st []"
    by auto
  from start [of "'' D83''"] obtain m where
    "best_at demo_charlist 0x0D83 m"
    "main_startup 5 demo_charnamebuffer demo_charlist demo_mbdecode [Opt_A] ['' D83'']
       = UI_started m st []"
    by (auto simp: demo_readings)
  with best_at_unique [OF demo_best(2)]
  have b: "main_startup 5 demo_charnamebuffer demo_charlist demo_mbdecode [Opt_A] ['' D83'']
       = UI_started 4 st []"
    by auto
  from start [of "''SINHALA''"]
  have c: "main_startup 5 demo_charnamebuffer demo_charlist demo_mbdecode [Opt_A] [''SINHALA'']
       = UI_started 3 st ''SINHALA''"
    by (simp add: demo_readings demo_finds)
  from start [of "''xyz''"]
  have d: "main_startup 5 demo_charnamebuffer demo_charlist demo_mbdecode [Opt_A] [''xyz'']
       = Exited (invalid_start_value ''xyz'')"
    by (simp add: demo_readings demo_finds)
  from a b c d opts len demo_sorted demo_names show ?thesis
    by (simp add: st_def)
qed

text \<open>
  C8 as stated fails for the argument \<open>D83\<close> with a blank in front: it is not a single
  character, it is not a hex codepoint in the claim's sense, and no name contains it, so
  the claim has the program leave with the message; the program shows the table at
  index 4 (\<open>U+0D83\<close>).
\<close>

theorem readcmdline_start_value_counterexample:
  "single_character demo_mbdecode '' D83'' = None \<and>
   spec_hex_codepoint '' D83'' = None \<and>
   find (entry_matches demo_charnamebuffer demo_charlist '' D83'')
     (visit_order (charlistsize demo_charlist) 0 1) = None \<and>
   main_startup 5 demo_charnamebuffer demo_charlist demo_mbdecode [] ['' D83'']
     = UI_started 4 initial_settings [] \<and>
   main_startup 5 demo_charnamebuffer demo_charlist demo_mbdecode [] ['' D83'']
     \<noteq> Exited (invalid_start_value '' D83'')"
  by code_simp

section \<open>Claims about the text input and the block list\<close>

text \<open>
  C2 on the small table. With the table at index 3, the user confirms the prompt of
  \<open>jumpui\<close> at once: the result is index 0, where \<open>lookupchar\<close> finds the value 0, and
  the terminal has not beeped. The claim asks for the index 3 and a beep, as the comment
  above \<open>jumpui\<close> does for an input that is not a valid codepoint number. For
  comparison, \<open>110000\<close> is rejected with a beep, and \<open>d80\<close> leads to the nearest entry.
\<close>

theorem jumpui_empty_input:
  "jumpui demo_charlist 3 [Key 13] demo_ui = Return (0, demo_ui, []) \<and>
   jumpui demo_charlist 3 [Key 49, Key 49, Key 48, Key 48, Key 48, Key 48, Key 13] demo_ui
     = Return (3, beep demo_ui, []) \<and>
   jumpui demo_charlist 3 [Key 100, Key 56, Key 48, Key 13] demo_ui = Return (2, demo_ui, [])"
  by code_simp

text \<open>
  The same for every table and position: when the first key at the prompt is \<open>'\r'\<close>
  (and this is not the kill character of the terminal), \<open>jumpui\<close> returns what
  \<open>lookupchar\<close> finds for the value 0 and does not beep.
\<close>

lemma strtoul16_empty: "strtoul16 [] = (0, [], False)"
  by (simp add: strtoul16_def)

lemma jumpui_enter_at_once:
  assumes "killchar u \<noteq> 13"
  shows "jumpui charlist index (Key 13 # es) u =
           (case lookupchar charlist 0 of None \<Rightarrow> Undefined | Some r \<Rightarrow> Return (r, u, es))"
  using assms
  by (simp add: jumpui_def doinputui_def Let_def ERR_def isxdigit_def doinputui_finish_def
      strtoul16_empty lastucharval_def)

text \<open>
  C5 on the small table. With the table at index 3 (\<open>U+0D82\<close>), the block list opens
  with the block Sinhala selected, which is not empty. The user confirms it: the result
  is index 2 (\<open>U+0D7F\<close>), an entry of the block Malayalam that is nearer to the start
  of Sinhala than \<open>U+0D82\<close>, the first codepoint of Sinhala in the table, is.
\<close>

theorem blockselectui_confirm_sinhala:
  "blockselectui demo_charlist demo_blocklist ''10.0.0'' None 3 [Key 13] demo_small_ui
     = Return (2, [False, False, True, False, False], demo_small_ui, []) \<and>
   blocklist_at demo_blocklist 4
     = Some \<lparr>from_b = 0x0D80, to_b = 0x0DFF, name_b = ''Sinhala''\<rparr> \<and>
   uval (demo_charlist ! 2) = 0x0D7F \<and> uval (demo_charlist ! 3) = 0x0D82"
  by code_simp

text \<open>
  The other two parts of C5 on the small table: confirming the empty block Tamil beeps
  and stays in the list, and \<open>q\<close> returns the index that was passed in.
\<close>

lemma blockselectui_other_paths:
  "blockselectui demo_charlist demo_blocklist ''10.0.0'' None 3
     [Key KEY_UP, Key KEY_UP, Key 13, Key 113] demo_small_ui
     = Return (3, [False, False, True, False, False], beep demo_small_ui, [])"
  by code_simp

text \<open>
  In general, \<open>'\r'\<close> on a block that is not empty leaves the loop with that block, from
  where \<open>blockselectui\<close> goes to \<open>lookupchar\<close> of the block's \<open>from\<close>, and \<open>q\<close> leaves
  it without a choice.
\<close>

lemma blockselectui_loop_confirm:
  assumes "0 \<le> selected" "selected < blocklistsize blocklist"
    and "emptyblocks_at emptyblocks selected = Some False"
  shows "blockselectui_loop unicodeversion blocklist emptyblocks (Key 13 # es) u selected
         = Return (Chosen selected, u, es)"
  using assms
  by (simp add: Let_def translatekey_def KEY_RESIZE_def KEY_RIGHT_def KEY_LEFT_def KEY_DOWN_def
      KEY_UP_def KEY_NPAGE_def KEY_PPAGE_def KEY_BACKSPACE_def KEY_ENTER_def)

lemma blockselectui_loop_cancel:
  "blockselectui_loop unicodeversion blocklist emptyblocks (Key 113 # es) u selected
     = Return (Cancelled, u, es)"
  by (simp add: Let_def translatekey_def KEY_RESIZE_def KEY_RIGHT_def KEY_LEFT_def KEY_DOWN_def
      KEY_UP_def KEY_NPAGE_def KEY_PPAGE_def KEY_BACKSPACE_def KEY_ENTER_def tolower_def)

end
